theory Spec2Isabelle
  imports Complex_Main "HOL-Library.DAList"
begin

section \<open>Shared types (shared.ts)\<close>

text \<open>
  The records follow the TypeScript types of the shared module. Field names carry a
  prefix because a record field is a global constant here. An optional field
  (\<^verbatim>\<open>timestamp?: number\<close>, \<^verbatim>\<open>svgs?: SvgAttachment[]\<close>) is an \<open>option\<close>, with
  \<open>None\<close> for \<^verbatim>\<open>undefined\<close> and for SQL \<^verbatim>\<open>NULL\<close>. A timestamp is the integer that
  \<^verbatim>\<open>Date.now()\<close> yields and the INTEGER column stores.
\<close>

record SvgAttachment =
  att_id :: string
  att_url :: string
  att_filename :: string

datatype role = user | assistant

record ChatMessage =
  msg_id :: string
  msg_content :: string
  msg_user :: string
  msg_role :: role
  msg_timestamp :: "int option"
  msg_svgs :: "SvgAttachment list option"

datatype Message =
    Add ChatMessage
  | Update ChatMessage
  | All "ChatMessage list"

section \<open>The room server (class Chat)\<close>

subsection \<open>Durable storage\<close>

text \<open>
  The table \<^verbatim>\<open>messages (id TEXT PRIMARY KEY, user, role, content, timestamp, svgs)\<close>.
  The primary key makes the ids of the rows pairwise distinct, which is the invariant
  of the type \<open>alist\<close>; a row keeps its place when it is updated and a new row goes to
  the end, which is the order \<^verbatim>\<open>SELECT * FROM messages\<close> scans the table in. The
  \<^verbatim>\<open>svgs\<close> column holds \<^verbatim>\<open>JSON.stringify\<close> of the attachment list or \<^verbatim>\<open>NULL\<close>; the
  model keeps the list itself, which is what \<^verbatim>\<open>JSON.parse\<close> gives back.
\<close>

record row =
  row_user :: string
  row_role :: role
  row_content :: string
  row_timestamp :: "int option"
  row_svgs :: "SvgAttachment list option"

type_synonym sql_table = "(string, row) alist"

text \<open>
  \<^verbatim>\<open>INSERT INTO messages (id, user, role, content, timestamp, svgs) VALUES (?, ?, ?, ?, ?, ?)
  ON CONFLICT (id) DO UPDATE SET content = ?, timestamp = ?, svgs = ?\<close>
  with the nine bound parameters in the order of the call.
\<close>

definition sql_upsert ::
  "string \<Rightarrow> string \<Rightarrow> role \<Rightarrow> string \<Rightarrow> int option \<Rightarrow> SvgAttachment list option \<Rightarrow>
   string \<Rightarrow> int option \<Rightarrow> SvgAttachment list option \<Rightarrow> sql_table \<Rightarrow> sql_table" where
  "sql_upsert i u r c t v c' t' v' tab =
     (case DAList.lookup tab i of
        None \<Rightarrow>
          DAList.update i
            \<lparr>row_user = u, row_role = r, row_content = c, row_timestamp = t, row_svgs = v\<rparr> tab
      | Some old \<Rightarrow>
          DAList.update i
            (old\<lparr>row_content := c', row_timestamp := t', row_svgs := v'\<rparr>) tab)"

text \<open>\<^verbatim>\<open>SELECT * FROM messages\<close>, as \<^verbatim>\<open>.toArray()\<close> returns it.\<close>

definition sql_select_all :: "sql_table \<Rightarrow> (string \<times> row) list" where
  "sql_select_all tab = DAList.impl_of tab"

subsection \<open>Calls on the collaborators\<close>

text \<open>
  What the server does to the outside, in program order: a frame broadcast to every
  connection of the room, a frame sent to one connection, a statement executed on the
  storage.
\<close>

datatype effect =
    Broadcast string
  | Send string Message
  | SqlCreateTable
  | SqlSelectAll
  | SqlUpsert ChatMessage

datatype error = SyntaxError | TypeError | StorageError

record Chat =
  messages :: "ChatMessage list"
  storage :: sql_table
  effects :: "effect list"

text \<open>A fresh object on a room whose storage holds the table \<open>tab\<close>.\<close>

definition new_Chat :: "sql_table \<Rightarrow> Chat" where
  "new_Chat tab = \<lparr>messages = [], storage = tab, effects = []\<rparr>"

text \<open>\<^verbatim>\<open>this.broadcast(message)\<close>, with no connection excluded.\<close>

definition broadcast :: "Chat \<Rightarrow> string \<Rightarrow> Chat" where
  "broadcast s frame = s\<lparr>effects := effects s @ [Broadcast frame]\<rparr>"

definition row_to_message :: "string \<times> row \<Rightarrow> ChatMessage" where
  "row_to_message kr =
     \<lparr>msg_id = fst kr, msg_content = row_content (snd kr), msg_user = row_user (snd kr),
      msg_role = row_role (snd kr), msg_timestamp = row_timestamp (snd kr),
      msg_svgs = row_svgs (snd kr)\<rparr>"

definition onStart :: "Chat \<Rightarrow> Chat" where
  "onStart s =
     (let rows = sql_select_all (storage s)
      in s\<lparr>messages := map row_to_message rows,
           effects := effects s @ [SqlCreateTable, SqlSelectAll]\<rparr>)"

definition onConnect :: "Chat \<Rightarrow> string \<Rightarrow> Chat" where
  "onConnect s connection =
     s\<lparr>effects := effects s @ [Send connection (All (messages s))]\<rparr>"

text \<open>\<^verbatim>\<open>message.timestamp || null\<close>: \<^verbatim>\<open>undefined\<close> and \<open>0\<close> are falsy.\<close>

definition or_null :: "int option \<Rightarrow> int option" where
  "or_null t = (case t of None \<Rightarrow> None | Some n \<Rightarrow> if n = 0 then None else Some n)"

text \<open>
  \<^verbatim>\<open>Array.prototype.find\<close> is \<open>List.find\<close>; an object is truthy, so
  \<^verbatim>\<open>if (existingMessage)\<close> asks whether the search found one. An array is truthy
  even when empty, so \<^verbatim>\<open>svgsJson\<close> is \<^verbatim>\<open>null\<close> only for a missing \<^verbatim>\<open>svgs\<close>.
\<close>

definition saveMessage :: "Chat \<Rightarrow> ChatMessage \<Rightarrow> Chat" where
  "saveMessage s message =
     (let existingMessage = List.find (\<lambda>m. msg_id m = msg_id message) (messages s);
          svgsJson = msg_svgs message;
          messages' =
            (if existingMessage \<noteq> None
             then map (\<lambda>m. if msg_id m = msg_id message then message else m) (messages s)
             else messages s @ [message])
      in s\<lparr>messages := messages',
           storage :=
             sql_upsert (msg_id message) (msg_user message) (msg_role message)
               (msg_content message) (or_null (msg_timestamp message)) svgsJson
               (msg_content message) (or_null (msg_timestamp message)) svgsJson
               (storage s),
           effects := effects s @ [SqlUpsert message]\<rparr>)"

text \<open>
  What \<^verbatim>\<open>JSON.parse\<close> returns: \<^verbatim>\<open>null\<close>, on which reading \<^verbatim>\<open>parsed.type\<close> throws; a
  message of the protocol; or any other value, whose \<^verbatim>\<open>type\<close> is neither \<^verbatim>\<open>"add"\<close> nor
  \<^verbatim>\<open>"update"\<close>.
\<close>

datatype json = JNull | JMessage Message | JOther

text \<open>
  \<^verbatim>\<open>JSON.parse\<close> is the runtime's: \<open>parse frame = None\<close> stands for a frame on which it
  throws. The broadcast has happened by the time of an error, so the state comes back
  together with the error.
\<close>

definition onMessage ::
  "(string \<Rightarrow> json option) \<Rightarrow> Chat \<Rightarrow> string \<Rightarrow> error option \<times> Chat" where
  "onMessage parse s frame =
     (let s1 = broadcast s frame
      in case parse frame of
           None \<Rightarrow> (Some SyntaxError, s1)
         | Some JNull \<Rightarrow> (Some TypeError, s1)
         | Some (JMessage (Add m)) \<Rightarrow> (None, saveMessage s1 m)
         | Some (JMessage (Update m)) \<Rightarrow> (None, saveMessage s1 m)
         | Some (JMessage (All ms)) \<Rightarrow> (None, s1)
         | Some JOther \<Rightarrow> (None, s1))"

text \<open>A run of \<^verbatim>\<open>saveMessage\<close> calls, one after the other.\<close>

definition saveMessages :: "Chat \<Rightarrow> ChatMessage list \<Rightarrow> Chat" where
  "saveMessages s ms = foldl saveMessage s ms"

text \<open>The order in which the elements of a list first occur.\<close>

definition firstIntroduced :: "'a list \<Rightarrow> 'a list" where
  "firstIntroduced xs = rev (remdups (rev xs))"

subsection \<open>Example messages\<close>

text \<open>
  The scenario of the specification: \<^verbatim>\<open>append({id:"a", body:"hi"})\<close>, then
  \<^verbatim>\<open>append({id:"a", body:"hi there"})\<close>; the snapshot holds one message with id
  \<^verbatim>\<open>"a"\<close>, and its body is \<^verbatim>\<open>"hi there"\<close>.
\<close>

definition hi :: ChatMessage where
  "hi = \<lparr>msg_id = ''a'', msg_content = ''hi'', msg_user = ''Alice'', msg_role = user,
         msg_timestamp = Some 1700000000000, msg_svgs = None\<rparr>"

definition hi_there :: ChatMessage where
  "hi_there = hi\<lparr>msg_content := ''hi there''\<rparr>"

text \<open>Alice's message \<^verbatim>\<open>"a"\<close> is appended again under Bob's name, as an assistant.\<close>

definition hi_bob :: ChatMessage where
  "hi_bob = \<lparr>msg_id = ''a'', msg_content = ''hello'', msg_user = ''Bob'', msg_role = assistant,
             msg_timestamp = Some 1700000000001, msg_svgs = None\<rparr>"

definition hi_row :: row where
  "hi_row = \<lparr>row_user = ''Alice'', row_role = user, row_content = ''hi'',
             row_timestamp = Some 1700000000000, row_svgs = None\<rparr>"

text \<open>Carol appends under the id of Alice's message \<^verbatim>\<open>"a"\<close>, as a user like Alice.\<close>

definition hi_carol :: ChatMessage where
  "hi_carol = \<lparr>msg_id = ''a'', msg_content = ''hey'', msg_user = ''Carol'', msg_role = user,
               msg_timestamp = Some 1700000000003, msg_svgs = None\<rparr>"

section \<open>The client (App)\<close>

text \<open>
  \<^verbatim>\<open>Array.prototype.findIndex\<close>, with \<open>None\<close> for \<open>-1\<close>.
\<close>

fun findIndex :: "('a \<Rightarrow> bool) \<Rightarrow> 'a list \<Rightarrow> nat option" where
  "findIndex P [] = None"
| "findIndex P (x # xs) = (if P x then Some 0 else map_option Suc (findIndex P xs))"

text \<open>The object literal that the handler builds from a received message.\<close>

definition message_entry :: "ChatMessage \<Rightarrow> ChatMessage" where
  "message_entry message =
     \<lparr>msg_id = msg_id message, msg_content = msg_content message,
      msg_user = msg_user message, msg_role = msg_role message,
      msg_timestamp = msg_timestamp message, msg_svgs = msg_svgs message\<rparr>"

text \<open>
  The \<^verbatim>\<open>onMessage\<close> handler of \<^verbatim>\<open>usePartySocket\<close>. It searches the list \<open>captured\<close>
  that its closure holds (the \<^verbatim>\<open>messages\<close> of the render that created it) and hands
  \<^verbatim>\<open>setMessages\<close> an updater, which is applied to the list \<open>current\<close> of the state.
  \<^verbatim>\<open>slice(0, k)\<close> is \<open>take k\<close> and \<^verbatim>\<open>slice(k + 1)\<close> is \<open>drop (k + 1)\<close>, also
  beyond the end of the list.
\<close>

definition App_onMessage ::
  "ChatMessage list \<Rightarrow> Message \<Rightarrow> ChatMessage list \<Rightarrow> ChatMessage list" where
  "App_onMessage captured message current =
     (case message of
        Add m \<Rightarrow>
          (case findIndex (\<lambda>x. msg_id x = msg_id m) captured of
             None \<Rightarrow> current @ [message_entry m]
           | Some foundIndex \<Rightarrow>
               take foundIndex current @ [message_entry m] @ drop (foundIndex + 1) current)
      | Update m \<Rightarrow> map (\<lambda>x. if msg_id x = msg_id m then message_entry m else x) current
      | All ms \<Rightarrow> ms)"

text \<open>
  White space as \<^verbatim>\<open>String.prototype.trim\<close> strips it, among the code units below 256,
  which the characters of a string stand for: tab, line feed, vertical tab, form feed,
  carriage return, space, no-break space.
\<close>

definition is_space :: "char \<Rightarrow> bool" where
  "is_space c =
     (c \<in> set [CHR 0x09, CHR 0x0A, CHR 0x0B, CHR 0x0C, CHR 0x0D, CHR 0x20, CHR 0xA0])"

text \<open>
  The \<^verbatim>\<open>onSubmit\<close> handler of the form: nothing happens for a blank input with no
  pending attachment; otherwise the message is put at the end of the local list at
  once and sent as \<^verbatim>\<open>add\<close>. The id is \<^verbatim>\<open>currentMessageIdRef.current || nanoid(8)\<close>,
  the time is \<^verbatim>\<open>Date.now()\<close>; both come in as arguments. The result is the new list
  and the frame sent, if any.
\<close>

definition App_onSubmit ::
  "ChatMessage list \<Rightarrow> string \<Rightarrow> string \<Rightarrow> SvgAttachment list \<Rightarrow> string option \<Rightarrow>
   string \<Rightarrow> int \<Rightarrow> ChatMessage list \<times> Message option" where
  "App_onSubmit current content name pendingSvgs currentMessageId nanoid now =
     (if list_all is_space content \<and> length pendingSvgs = 0 then (current, None)
      else
        let chatMessage =
              \<lparr>msg_id = (case currentMessageId of
                           None \<Rightarrow> nanoid
                         | Some i \<Rightarrow> if i = [] then nanoid else i),
               msg_content = content, msg_user = name, msg_role = user,
               msg_timestamp = Some now,
               msg_svgs = (if length pendingSvgs > 0 then Some pendingSvgs else None)\<rparr>
        in (current @ [chatMessage], Some (Add chatMessage)))"


section \<open>Numbers\<close>

text \<open>
  A JavaScript Number is an IEEE 754 double: a finite value other than zero, which is
  the real number it denotes, the two zeros (\<open>Num 0\<close> is \<open>+0\<close>), the two infinities,
  or \<open>NaN\<close>. \<^verbatim>\<open>undefined\<close> in arithmetic is \<open>NaN\<close>.
\<close>

datatype jsnum = Num real | NegZero | PInf | NInf | NaN

text \<open>
  An arithmetic operation yields the double nearest to its exact result. A rounding
  takes an exact result other than zero to a Number. \<open>double\<close> is the rounding of the
  program: to the nearest multiple of the unit in the last of 53 binary places (of
  \<open>2\<^sup>-\<^sup>1\<^sup>0\<^sup>7\<^sup>4\<close> below \<open>2\<^sup>-\<^sup>1\<^sup>0\<^sup>2\<^sup>2\<close>), to the even one of two equally near,
  to an infinity from \<open>2\<^sup>1\<^sup>0\<^sup>2\<^sup>4\<close> on, and to the zero of its sign below the smallest
  double. \<open>exact\<close> rounds nothing: it is arithmetic on the reals.
\<close>

type_synonym rounding = "real \<Rightarrow> jsnum"

definition round_even :: "real \<Rightarrow> int" where
  "round_even x =
     (let f = \<lfloor>x\<rfloor>; d = x - of_int f
      in if d < 1 / 2 then f else if 1 / 2 < d then f + 1 else if even f then f else f + 1)"

definition double :: rounding where
  "double r =
     (if r = 0 then Num 0
      else
        let a = \<bar>r\<bar>;
            e = max \<lfloor>log 2 a\<rfloor> (- 1022);
            u = 2 powr of_int (e - 52);
            n = round_even (a / u);
            v = of_int n * u
        in if 2 ^ 1024 \<le> v then (if 0 < r then PInf else NInf)
           else if n = 0 then (if 0 < r then Num 0 else NegZero)
           else Num (if 0 < r then v else - v))"

definition exact :: rounding where
  "exact r = Num r"

text \<open>A Number that no rounding changes.\<close>

definition representable :: "real \<Rightarrow> bool" where
  "representable r = (double r = Num r)"

fun is_zero :: "jsnum \<Rightarrow> bool" where
  "is_zero (Num a) = (a = 0)"
| "is_zero NegZero = True"
| "is_zero a = False"

fun is_infinite :: "jsnum \<Rightarrow> bool" where
  "is_infinite PInf = True"
| "is_infinite NInf = True"
| "is_infinite a = False"

text \<open>The sign bit.\<close>

fun is_negative :: "jsnum \<Rightarrow> bool" where
  "is_negative (Num a) = (a < 0)"
| "is_negative NegZero = True"
| "is_negative NInf = True"
| "is_negative a = False"

fun real_of :: "jsnum \<Rightarrow> real" where
  "real_of (Num a) = a"
| "real_of a = 0"

definition signed_zero :: "bool \<Rightarrow> jsnum" where
  "signed_zero neg = (if neg then NegZero else Num 0)"

definition signed_inf :: "bool \<Rightarrow> jsnum" where
  "signed_inf neg = (if neg then NInf else PInf)"

fun jneg :: "jsnum \<Rightarrow> jsnum" where
  "jneg (Num a) = (if a = 0 then NegZero else Num (- a))"
| "jneg NegZero = Num 0"
| "jneg PInf = NInf"
| "jneg NInf = PInf"
| "jneg NaN = NaN"

text \<open>
  The sum: \<open>NaN\<close> for opposite infinities; a zero for two zeros, negative only when
  both are; \<open>+0\<close> for an exact sum of zero; otherwise the exact sum, rounded.
\<close>

definition jadd :: "rounding \<Rightarrow> jsnum \<Rightarrow> jsnum \<Rightarrow> jsnum" where
  "jadd rnd a b =
     (if a = NaN \<or> b = NaN then NaN
      else if is_infinite a \<and> is_infinite b then (if a = b then a else NaN)
      else if is_infinite a then a
      else if is_infinite b then b
      else if is_zero a \<and> is_zero b then (if a = NegZero \<and> b = NegZero then NegZero else Num 0)
      else if is_zero a then b
      else if is_zero b then a
      else if real_of a + real_of b = 0 then Num 0
      else rnd (real_of a + real_of b))"

definition jsub :: "rounding \<Rightarrow> jsnum \<Rightarrow> jsnum \<Rightarrow> jsnum" where
  "jsub rnd a b = jadd rnd a (jneg b)"

text \<open>
  The product and the quotient: the sign is the exclusive or of the signs;
  \<open>0 * Infinity\<close>, \<open>Infinity / Infinity\<close> and \<open>0 / 0\<close> are \<open>NaN\<close>; anything else
  over a zero is an infinity.
\<close>

definition jmul :: "rounding \<Rightarrow> jsnum \<Rightarrow> jsnum \<Rightarrow> jsnum" where
  "jmul rnd a b =
     (if a = NaN \<or> b = NaN then NaN
      else if (is_infinite a \<and> is_zero b) \<or> (is_zero a \<and> is_infinite b) then NaN
      else if is_infinite a \<or> is_infinite b then signed_inf (is_negative a \<noteq> is_negative b)
      else if is_zero a \<or> is_zero b then signed_zero (is_negative a \<noteq> is_negative b)
      else rnd (real_of a * real_of b))"

definition jdiv :: "rounding \<Rightarrow> jsnum \<Rightarrow> jsnum \<Rightarrow> jsnum" where
  "jdiv rnd a b =
     (if a = NaN \<or> b = NaN then NaN
      else if (is_infinite a \<and> is_infinite b) \<or> (is_zero a \<and> is_zero b) then NaN
      else if is_infinite a \<or> is_zero b then signed_inf (is_negative a \<noteq> is_negative b)
      else if is_infinite b \<or> is_zero a then signed_zero (is_negative a \<noteq> is_negative b)
      else rnd (real_of a / real_of b))"

text \<open>The order of the Numbers other than \<open>NaN\<close>, with \<open>-0\<close> below \<open>+0\<close>.\<close>

fun jless :: "jsnum \<Rightarrow> jsnum \<Rightarrow> bool" where
  "jless NInf b = (b \<noteq> NInf)"
| "jless a NInf = False"
| "jless a PInf = (a \<noteq> PInf)"
| "jless PInf b = False"
| "jless NegZero NegZero = False"
| "jless NegZero (Num b) = (0 \<le> b)"
| "jless (Num a) NegZero = (a < 0)"
| "jless (Num a) (Num b) = (a < b)"
| "jless a b = False"

text \<open>
  \<^verbatim>\<open>Math.max\<close> and \<^verbatim>\<open>Math.min\<close> of two arguments: \<open>NaN\<close> as soon as one of
  them is.
\<close>

definition jmax :: "jsnum \<Rightarrow> jsnum \<Rightarrow> jsnum" where
  "jmax a b = (if a = NaN \<or> b = NaN then NaN else if jless a b then b else a)"

definition jmin :: "jsnum \<Rightarrow> jsnum \<Rightarrow> jsnum" where
  "jmin a b = (if a = NaN \<or> b = NaN then NaN else if jless b a then b else a)"

text \<open>
  The number that the digits of \<^verbatim>\<open>x.toFixed(d)\<close> denote: the nearest multiple of
  \<open>10\<^sup>-\<^sup>d\<close>, the larger in magnitude of two equally near ones; \<^verbatim>\<open>"Infinity"\<close> and
  \<^verbatim>\<open>"NaN"\<close> for the values that are not finite.
\<close>

fun toFixed :: "nat \<Rightarrow> jsnum \<Rightarrow> jsnum" where
  "toFixed d (Num x) =
     (if x < 0 then Num (- (of_int \<lfloor>- x * 10 ^ d + 1 / 2\<rfloor> / 10 ^ d))
      else Num (of_int \<lfloor>x * 10 ^ d + 1 / 2\<rfloor> / 10 ^ d))"
| "toFixed d NegZero = Num 0"
| "toFixed d a = a"

section \<open>Geometry\<close>

text \<open>
  \<^bold>\<open>normalizeSvg.\<close> The function reads its argument through regular expressions and
  substring tests, and a source document is modelled by what they find:
  \<open>viewBoxMatch\<close> is the list \<^verbatim>\<open>viewBoxMatch[1].split(/\s+/).map(Number)\<close> when the
  \<^verbatim>\<open>viewBox\<close> attribute matches; \<open>widthMatch\<close> and \<open>heightMatch\<close> are
  \<^verbatim>\<open>parseFloat\<close> of the matched \<^verbatim>\<open>width\<close> and \<^verbatim>\<open>height\<close> attributes; \<open>svgTag\<close>
  tells whether \<^verbatim>\<open>/<svg[^>]*>/\<close> matches; \<open>has_g\<close> whether the text, once that tag
  is replaced, contains \<^verbatim>\<open><g\<close>; \<open>gTag\<close> whether \<^verbatim>\<open>/<g([^>]*)>/\<close> matches in it;
  \<open>closingTag\<close> whether it contains \<^verbatim>\<open></svg>\<close>.
\<close>

record svg_source =
  viewBoxMatch :: "jsnum list option"
  widthMatch :: "jsnum option"
  heightMatch :: "jsnum option"
  svgTag :: bool
  has_g :: bool
  gTag :: bool
  closingTag :: bool

text \<open>
  An element of the destructuring \<^verbatim>\<open>[vx, vy, vw, vh] = ...\<close>: \<^verbatim>\<open>undefined\<close>
  beyond the end of the array, which the arithmetic that follows reads as \<open>NaN\<close>.
\<close>

definition element :: "jsnum list \<Rightarrow> nat \<Rightarrow> jsnum" where
  "element xs i = (if i < length xs then xs ! i else NaN)"

text \<open>
  The first block of \<^verbatim>\<open>normalizeSvg\<close>: the box \<open>(x, y, width, height)\<close>, from the
  \<^verbatim>\<open>viewBox\<close>, else from \<^verbatim>\<open>width\<close> and \<^verbatim>\<open>height\<close> over the default \<open>100\<close>.
\<close>

definition resolve_bounds :: "svg_source \<Rightarrow> jsnum \<times> jsnum \<times> jsnum \<times> jsnum" where
  "resolve_bounds src =
     (case viewBoxMatch src of
        Some vs \<Rightarrow> (element vs 0, element vs 1, element vs 2, element vs 3)
      | None \<Rightarrow>
          (Num 0, Num 0,
           (case widthMatch src of Some v \<Rightarrow> v | None \<Rightarrow> Num 100),
           (case heightMatch src of Some v \<Rightarrow> v | None \<Rightarrow> Num 100)))"

text \<open>
  The document that comes out is the input with up to three replacements, each made
  only where its pattern is found: \<open>n_viewBox\<close> is the \<^verbatim>\<open>viewBox\<close> of the new root
  tag, if the root tag was found; \<open>n_group\<close> tells where the transform was written, on
  a group wrapped around the content behind the root tag or on the first group that
  was there, if anywhere; \<open>n_closing\<close> tells whether \<^verbatim>\<open></g>\<close> was put before
  \<^verbatim>\<open></svg>\<close>. The numbers are those of the string
  \<^verbatim>\<open>translate(offsetX,offsetY) scale(scale)\<close> that the function builds.
\<close>

datatype group = Synthesized | Injected

record normalized =
  n_viewBox :: "jsnum list option"
  n_group :: "group option"
  n_closing :: bool
  n_offsetX :: jsnum
  n_offsetY :: jsnum
  n_scale :: jsnum

text \<open>
  No statement of the function throws: matching, replacing and arithmetic are total,
  so every path returns a document. The arithmetic is that of the rounding \<open>rnd\<close>;
  the program is \<open>normalizeSvg double\<close>.
\<close>

definition normalizeSvg :: "rounding \<Rightarrow> svg_source \<Rightarrow> error + normalized" where
  "normalizeSvg rnd svgContent =
     (let (x, y, width, height) = resolve_bounds svgContent;
          targetSize = Num 300;
          scale = jdiv rnd targetSize (jmax width height);
          scaledWidth = jmul rnd width scale;
          scaledHeight = jmul rnd height scale;
          offsetX = jsub rnd (jdiv rnd (jsub rnd targetSize scaledWidth) (Num 2)) (jmul rnd x scale);
          offsetY = jsub rnd (jdiv rnd (jsub rnd targetSize scaledHeight) (Num 2)) (jmul rnd y scale)
      in Inr \<lparr>n_viewBox =
                 (if svgTag svgContent then Some [Num 0, Num 0, targetSize, targetSize]
                  else None),
               n_group =
                 (if \<not> has_g svgContent
                  then (if svgTag svgContent then Some Synthesized else None)
                  else (if gTag svgContent then Some Injected else None)),
               n_closing = (\<not> has_g svgContent \<and> closingTag svgContent),
               n_offsetX = offsetX, n_offsetY = offsetY, n_scale = scale\<rparr>)"

text \<open>
  \<^bold>\<open>generateSvgBlob.\<close> A stroke of the handwriting canvas.
\<close>

record path =
  path_points :: "(jsnum \<times> jsnum) list"
  path_color :: string
  path_width :: jsnum

text \<open>
  The local constants of \<^verbatim>\<open>generateSvgBlob\<close> before they are formatted.
\<close>

record ink_geometry =
  g_minX :: jsnum
  g_minY :: jsnum
  g_contentWidth :: jsnum
  g_contentHeight :: jsnum
  g_scale :: jsnum
  g_offsetX :: jsnum
  g_offsetY :: jsnum

text \<open>
  The two nested loops over the points of all paths, from
  \<^verbatim>\<open>minX = Infinity, minY = Infinity, maxX = -Infinity, maxY = -Infinity\<close>.
\<close>

definition bounding_box :: "path list \<Rightarrow> jsnum \<times> jsnum \<times> jsnum \<times> jsnum" where
  "bounding_box paths =
     foldl (\<lambda>(minX, minY, maxX, maxY) (px, py).
              (jmin minX px, jmin minY py, jmax maxX px, jmax maxY py))
       (PInf, PInf, NInf, NInf) (concat (map path_points paths))"

text \<open>
  The arithmetic of \<^verbatim>\<open>generateSvgBlob\<close>. \<^verbatim>\<open>Math.max(...widths, 3)\<close> starts from
  \<open>-Infinity\<close>, as \<^verbatim>\<open>Math.max\<close> does. The program is
  \<open>generateSvgBlob_geometry double\<close>.
\<close>

definition generateSvgBlob_geometry :: "rounding \<Rightarrow> path list \<Rightarrow> ink_geometry" where
  "generateSvgBlob_geometry rnd paths =
     (let (minX0, minY0, maxX0, maxY0) = bounding_box paths;
          maxStrokeWidth = foldl jmax NInf (map path_width paths @ [Num 3]);
          padding = jadd rnd maxStrokeWidth (Num 4);
          minX = jmax (Num 0) (jsub rnd minX0 padding);
          minY = jmax (Num 0) (jsub rnd minY0 padding);
          maxX = jadd rnd maxX0 padding;
          maxY = jadd rnd maxY0 padding;
          contentWidth = jsub rnd maxX minX;
          contentHeight = jsub rnd maxY minY;
          targetSize = Num 300;
          scale = jdiv rnd targetSize (jmax contentWidth contentHeight);
          scaledWidth = jmul rnd contentWidth scale;
          scaledHeight = jmul rnd contentHeight scale;
          offsetX = jdiv rnd (jsub rnd targetSize scaledWidth) (Num 2);
          offsetY = jdiv rnd (jsub rnd targetSize scaledHeight) (Num 2)
      in \<lparr>g_minX = minX, g_minY = minY, g_contentWidth = contentWidth,
          g_contentHeight = contentHeight, g_scale = scale,
          g_offsetX = offsetX, g_offsetY = offsetY\<rparr>)"

text \<open>
  The document that \<^verbatim>\<open>generateSvgBlob\<close> writes: the numbers of
  \<^verbatim>\<open>translate(offsetX,offsetY) scale(scale) translate(-minX,-minY)\<close> as printed by
  \<^verbatim>\<open>toFixed\<close>, and one path element for each stroke of two points or more.
\<close>

record ink_path =
  d_points :: "(jsnum \<times> jsnum) list"
  stroke :: string
  stroke_width :: jsnum

record ink_svg =
  ink_viewBox :: "jsnum list"
  ink_translate :: "jsnum \<times> jsnum"
  ink_scale :: jsnum
  ink_shift :: "jsnum \<times> jsnum"
  ink_paths :: "ink_path list"

definition generateSvgBlob :: "rounding \<Rightarrow> path list \<Rightarrow> ink_svg" where
  "generateSvgBlob rnd paths =
     (let g = generateSvgBlob_geometry rnd paths;
          targetSize = Num 300
      in \<lparr>ink_viewBox = [Num 0, Num 0, targetSize, targetSize],
          ink_translate = (toFixed 2 (g_offsetX g), toFixed 2 (g_offsetY g)),
          ink_scale = toFixed 4 (g_scale g),
          ink_shift = (toFixed 2 (jneg (g_minX g)), toFixed 2 (jneg (g_minY g))),
          ink_paths =
            map (\<lambda>p. \<lparr>d_points = map (\<lambda>(x, y). (toFixed 2 x, toFixed 2 y)) (path_points p),
                       stroke = path_color p, stroke_width = path_width p\<rparr>)
              (filter (\<lambda>p. \<not> length (path_points p) < 2) paths)\<rparr>)"

text \<open>
  Example inputs, each a well-formed document with a root tag and no group: the
  source with \<^verbatim>\<open>viewBox="0 0 50 200"\<close>, one with \<^verbatim>\<open>viewBox="0 0 0 0"\<close>, one with
  \<^verbatim>\<open>viewBox="0 0 -0 -0"\<close>, and one with \<^verbatim>\<open>viewBox="10 0 100 100"\<close>; a text with a
  \<^verbatim>\<open>viewBox\<close> attribute and neither a root tag in lower case nor a group; a document
  whose box has the width and height \<open>2\<^sup>-\<^sup>1\<^sup>0\<^sup>7\<^sup>0\<close>, a double below the normal range; a stroke
  from \<open>(17, 7)\<close> to \<open>(103, 93)\<close> of width \<open>3\<close>, whose padded box is
  \<open>(10, 0, 100, 100)\<close>.
\<close>

definition document :: "jsnum list \<Rightarrow> svg_source" where
  "document viewBox =
     \<lparr>viewBoxMatch = Some viewBox, widthMatch = None, heightMatch = None,
      svgTag = True, has_g = False, gTag = False, closingTag = True\<rparr>"

definition tall :: svg_source where
  "tall = document [Num 0, Num 0, Num 50, Num 200]"

definition empty_box :: svg_source where
  "empty_box = document [Num 0, Num 0, Num 0, Num 0]"

definition negative_empty_box :: svg_source where
  "negative_empty_box = document [Num 0, Num 0, NegZero, NegZero]"

definition shifted_box :: svg_source where
  "shifted_box = document [Num 10, Num 0, Num 100, Num 100]"

definition untagged :: svg_source where
  "untagged =
     \<lparr>viewBoxMatch = Some [Num 0, Num 0, Num 0, Num 0], widthMatch = None,
      heightMatch = None, svgTag = False, has_g = False, gTag = False, closingTag = False\<rparr>"



section \<open>The upload boundary (handleSvgUpload)\<close>

text \<open>
  An uploaded file: its name, its media type, and its text as \<^verbatim>\<open>normalizeSvg\<close> reads
  it. The form carries the files of the field \<^verbatim>\<open>svgs\<close> and three text fields, each
  of which may be missing; \<open>req_formData = None\<close> stands for a body on which
  \<^verbatim>\<open>request.formData()\<close> throws.
\<close>

record File =
  file_name :: string
  file_type :: string
  file_text :: svg_source

record FormData =
  form_svgs :: "File list"
  form_room :: "string option"
  form_user :: "string option"
  form_messageId :: "string option"

record Request =
  req_method :: string
  req_formData :: "FormData option"

text \<open>
  The outside of the handler: the objects of the bucket \<^verbatim>\<open>env.SVG_BUCKET\<close> by key,
  the keys on which a write is rejected (\<^verbatim>\<open>put\<close> throws), and the ids that
  \<^verbatim>\<open>crypto.randomUUID()\<close> hands out, one after the other.
\<close>

record Env =
  SVG_BUCKET :: "string \<rightharpoonup> normalized"
  put_fails :: "string \<Rightarrow> bool"
  uuid_supply :: "nat \<Rightarrow> string"
  uuid_count :: nat

text \<open>
  A response: the status and the body, which is a plain text, \<^verbatim>\<open>{error: ...}\<close> or
  \<^verbatim>\<open>{svgs: [...]}\<close>.
\<close>

datatype body = TextBody string | ErrorBody string | SvgsBody "SvgAttachment list"

record Response =
  status :: nat
  body :: body

definition randomUUID :: "Env \<Rightarrow> string \<times> Env" where
  "randomUUID env = (uuid_supply env (uuid_count env), env\<lparr>uuid_count := Suc (uuid_count env)\<rparr>)"

definition R2_put :: "Env \<Rightarrow> string \<Rightarrow> normalized \<Rightarrow> error + Env" where
  "R2_put env key v =
     (if put_fails env key then Inl StorageError
      else Inr (env\<lparr>SVG_BUCKET := (SVG_BUCKET env)(key \<mapsto> v)\<rparr>))"

text \<open>
  \<^verbatim>\<open>formData.get(name) as string || fallback\<close>: \<^verbatim>\<open>null\<close> and the empty string are
  falsy.
\<close>

definition or_default :: "string option \<Rightarrow> string \<Rightarrow> string" where
  "or_default v d = (case v of None \<Rightarrow> d | Some s \<Rightarrow> if s = [] then d else s)"

text \<open>
  \<^verbatim>\<open>s.replace(/[^a-zA-Z0-9_-]/g, "_")\<close>: every character outside the class becomes an
  underscore.
\<close>

definition restricted :: "char \<Rightarrow> bool" where
  "restricted c =
     (c \<in> set ''abcdefghijklmnopqrstuvwxyzABCDEFGHIJKLMNOPQRSTUVWXYZ0123456789_-'')"

definition sanitize :: "string \<Rightarrow> string" where
  "sanitize s = map (\<lambda>c. if \<not> restricted c then CHR ''_'' else c) s"

text \<open>
  \<^verbatim>\<open>String.prototype.endsWith\<close>.
\<close>

definition endsWith :: "string \<Rightarrow> string \<Rightarrow> bool" where
  "endsWith s suffix =
     (length suffix \<le> length s \<and> drop (length s - length suffix) s = suffix)"

text \<open>
  The template \<^verbatim>\<open>`svgs/${safeRoom}/${safeUser}/${safeMessageId}/${file.name}`\<close>.
\<close>

definition storage_key :: "string \<Rightarrow> string \<Rightarrow> string \<Rightarrow> string \<Rightarrow> string" where
  "storage_key safeRoom safeUser safeMessageId name =
     ''svgs/'' @ safeRoom @ ''/'' @ safeUser @ ''/'' @ safeMessageId @ ''/'' @ name"

text \<open>
  A file that the loop does not skip.
\<close>

definition is_svg :: "File \<Rightarrow> bool" where
  "is_svg file = (\<not> (file_type file \<noteq> ''image/svg+xml'' \<and> \<not> endsWith (file_name file) ''.svg''))"

text \<open>
  The loop over the files, with the list \<^verbatim>\<open>uploadedSvgs\<close> built so far. It returns
  the outside as it is left and either the list or the error thrown.
\<close>

fun upload_files ::
  "string \<Rightarrow> string \<Rightarrow> string \<Rightarrow> File list \<Rightarrow> Env \<Rightarrow> SvgAttachment list \<Rightarrow>
   Env \<times> (error + SvgAttachment list)" where
  "upload_files safeRoom safeUser safeMessageId [] env uploadedSvgs = (env, Inr uploadedSvgs)"
| "upload_files safeRoom safeUser safeMessageId (file # files) env uploadedSvgs =
     (if file_type file \<noteq> ''image/svg+xml'' \<and> \<not> endsWith (file_name file) ''.svg''
      then upload_files safeRoom safeUser safeMessageId files env uploadedSvgs
      else
        let (fileId, env1) = randomUUID env;
            key = storage_key safeRoom safeUser safeMessageId (file_name file)
        in case normalizeSvg double (file_text file) of
             Inl e \<Rightarrow> (env1, Inl e)
           | Inr normalizedSvg \<Rightarrow>
               (case R2_put env1 key normalizedSvg of
                  Inl e \<Rightarrow> (env1, Inl e)
                | Inr env2 \<Rightarrow>
                    upload_files safeRoom safeUser safeMessageId files env2
                      (uploadedSvgs @
                         [\<lparr>att_id = fileId, att_url = ''/api/svg/'' @ key,
                           att_filename = file_name file\<rparr>])))"

text \<open>
  The handler; its \<^verbatim>\<open>catch\<close> turns every error into the response 500.
\<close>

definition handleSvgUpload :: "Request \<Rightarrow> Env \<Rightarrow> Response \<times> Env" where
  "handleSvgUpload request env =
     (if req_method request \<noteq> ''POST''
      then (\<lparr>status = 405, body = TextBody ''Method not allowed''\<rparr>, env)
      else
        case req_formData request of
          None \<Rightarrow> (\<lparr>status = 500, body = ErrorBody ''Upload failed''\<rparr>, env)
        | Some formData \<Rightarrow>
            let files = form_svgs formData;
                room = or_default (form_room formData) ''default'';
                user = or_default (form_user formData) ''anonymous'';
                (messageId, env1) =
                  (case form_messageId formData of
                     None \<Rightarrow> randomUUID env
                   | Some m \<Rightarrow> if m = [] then randomUUID env else (m, env));
                safeRoom = sanitize room;
                safeUser = sanitize user;
                safeMessageId = sanitize messageId
            in if length files = 0
               then (\<lparr>status = 400, body = ErrorBody ''No files uploaded''\<rparr>, env1)
               else
                 (case upload_files safeRoom safeUser safeMessageId files env1 [] of
                    (env2, Inl e) \<Rightarrow>
                      (\<lparr>status = 500, body = ErrorBody ''Upload failed''\<rparr>, env2)
                  | (env2, Inr uploadedSvgs) \<Rightarrow>
                      (\<lparr>status = 200, body = SvgsBody uploadedSvgs\<rparr>, env2)))"

text \<open>
  The segments of a key, split at \<^verbatim>\<open>/\<close>.
\<close>

fun segments :: "string \<Rightarrow> string list" where
  "segments [] = [[]]"
| "segments (c # cs) =
     (if c = CHR ''/'' then [] # segments cs
      else (case segments cs of seg # segs \<Rightarrow> (c # seg) # segs | [] \<Rightarrow> [[c]]))"

text \<open>
  Example inputs: an empty bucket that accepts every write; a PNG file, two SVG files
  (the second recognised by its name only), a file whose name climbs out of its
  folder; a POST request with the room \<^verbatim>\<open>lobby\<close>, the user \<^verbatim>\<open>Al ice\<close> and the
  message id \<^verbatim>\<open>m1\<close>.
\<close>

definition env0 :: Env where
  "env0 = \<lparr>SVG_BUCKET = Map.empty, put_fails = (\<lambda>key. False),
           uuid_supply = (\<lambda>n. replicate (Suc n) CHR ''u''), uuid_count = 0\<rparr>"

definition png :: File where
  "png = \<lparr>file_name = ''photo.png'', file_type = ''image/png'', file_text = tall\<rparr>"

definition svg1 :: File where
  "svg1 = \<lparr>file_name = ''one.svg'', file_type = ''image/svg+xml'', file_text = tall\<rparr>"

definition svg2 :: File where
  "svg2 = \<lparr>file_name = ''two.svg'', file_type = '''', file_text = shifted_box\<rparr>"

definition evil :: File where
  "evil = \<lparr>file_name = ''../../x.svg'', file_type = ''image/svg+xml'', file_text = tall\<rparr>"

definition post :: "File list \<Rightarrow> Request" where
  "post files =
     \<lparr>req_method = ''POST'',
      req_formData = Some \<lparr>form_svgs = files, form_room = Some ''lobby'',
                           form_user = Some ''Al ice'', form_messageId = Some ''m1''\<rparr>\<rparr>"

text \<open>
  Two more requests, each with the first SVG file: one whose message id holds a slash,
  and one with no room, an empty user and no message id.
\<close>

definition post_slash :: Request where
  "post_slash =
     \<lparr>req_method = ''POST'',
      req_formData = Some \<lparr>form_svgs = [svg1], form_room = Some ''lobby'',
                           form_user = Some ''Al ice'', form_messageId = Some ''m/1''\<rparr>\<rparr>"

definition post_anonymous :: Request where
  "post_anonymous =
     \<lparr>req_method = ''POST'',
      req_formData = Some \<lparr>form_svgs = [svg1], form_room = None,
                           form_user = Some [], form_messageId = None\<rparr>\<rparr>"

section \<open>The message store\<close>

lemma find_None_ids: "(List.find (\<lambda>m. msg_id m = i) ms = None) = (i \<notin> msg_id ` set ms)"
  by (auto simp: find_None_iff)

lemma messages_saveMessage:
  "messages (saveMessage s m) =
     (if msg_id m \<in> msg_id ` set (messages s)
      then map (\<lambda>x. if msg_id x = msg_id m then m else x) (messages s)
      else messages s @ [m])"
proof -
  have "(\<exists>y. List.find (\<lambda>x. msg_id x = msg_id m) (messages s) = Some y) =
        (msg_id m \<in> msg_id ` set (messages s))"
    using find_None_ids [of "msg_id m" "messages s"] by auto
  then show ?thesis by (simp add: saveMessage_def Let_def)
qed

lemma map_id_replace:
  "map msg_id (map (\<lambda>x. if msg_id x = msg_id m then m else x) ms) = map msg_id ms"
  by (induction ms) auto

lemma ids_saveMessage:
  "map msg_id (messages (saveMessage s m)) =
     (if msg_id m \<in> set (map msg_id (messages s)) then map msg_id (messages s)
      else map msg_id (messages s) @ [msg_id m])"
  by (simp add: messages_saveMessage map_id_replace)

lemma saveMessages_snoc: "saveMessages s (ms @ [m]) = saveMessage (saveMessages s ms) m"
  by (simp add: saveMessages_def)

lemma firstIntroduced_snoc:
  "firstIntroduced (xs @ [x]) =
     (if x \<in> set xs then firstIntroduced xs else firstIntroduced xs @ [x])"
  by (simp add: firstIntroduced_def)

lemma set_firstIntroduced: "set (firstIntroduced xs) = set xs"
  by (simp add: firstIntroduced_def)

lemma ids_saveMessages:
  "map msg_id (messages (saveMessages (new_Chat tab) ms)) = firstIntroduced (map msg_id ms)"
proof (induction ms rule: rev_induct)
  case Nil
  show ?case by (simp add: saveMessages_def new_Chat_def firstIntroduced_def)
next
  case (snoc m ms)
  show ?case
    by (simp only: saveMessages_snoc ids_saveMessage snoc.IH set_firstIntroduced
        map_append list.map firstIntroduced_snoc)
qed

lemma find_replace:
  "List.find (\<lambda>x. msg_id x = i) (map (\<lambda>x. if msg_id x = msg_id m then m else x) ms) =
     (if i = msg_id m then (if i \<in> msg_id ` set ms then Some m else None)
      else List.find (\<lambda>x. msg_id x = i) ms)"
  by (induction ms) auto

lemma find_snoc:
  "List.find P (xs @ [x]) =
     (case List.find P xs of Some y \<Rightarrow> Some y | None \<Rightarrow> if P x then Some x else None)"
  by (induction xs) auto

lemma find_saveMessage:
  "List.find (\<lambda>x. msg_id x = i) (messages (saveMessage s m)) =
     (if i = msg_id m then Some m else List.find (\<lambda>x. msg_id x = i) (messages s))"
proof (cases "msg_id m \<in> msg_id ` set (messages s)")
  case True
  then show ?thesis by (simp add: messages_saveMessage find_replace)
next
  case False
  then have "List.find (\<lambda>x. msg_id x = msg_id m) (messages s) = None"
    by (simp add: find_None_ids)
  with False show ?thesis
    by (auto simp: messages_saveMessage find_snoc split: option.splits)
qed

lemma find_saveMessages:
  "List.find (\<lambda>x. msg_id x = i) (messages (saveMessages (new_Chat tab) ms)) =
     List.find (\<lambda>x. msg_id x = i) (rev ms)"
proof (induction ms rule: rev_induct)
  case Nil
  show ?case by (simp add: saveMessages_def new_Chat_def)
next
  case (snoc m ms)
  show ?case
    by (simp add: saveMessages_snoc find_saveMessage snoc.IH)
qed

lemma distinct_firstIntroduced: "distinct (firstIntroduced xs)"
  by (simp add: firstIntroduced_def)

lemma count_one_distinct:
  "distinct (map f xs) \<Longrightarrow> i \<in> f ` set xs \<Longrightarrow> length (filter (\<lambda>x. f x = i) xs) = 1"
proof (induction xs)
  case Nil
  then show ?case by simp
next
  case (Cons a xs)
  show ?case
  proof (cases "f a = i")
    case True
    from Cons.prems(1) have "f a \<notin> f ` set xs" by simp
    with True have "\<forall>x\<in>set xs. f x \<noteq> i" by (auto simp: image_iff)
    then have "filter (\<lambda>x. f x = i) xs = []" by (simp add: filter_empty_conv)
    with True show ?thesis by simp
  next
    case False
    with Cons show ?thesis by auto
  qed
qed

lemma last_effects_onConnect:
  "last (effects (onConnect s c)) = Send c (All (messages s))"
  by (simp add: onConnect_def)

text \<open>
  Claim C1. Whatever run of \<^verbatim>\<open>saveMessage\<close> calls a fresh room store receives, its
  list holds the ids in the order of their first introduction; for each id that was
  appended, the entry found under that id is the message of the latest append for it
  (so it sits at the id's first position with the latest content); and the snapshot
  that \<^verbatim>\<open>onConnect\<close> sends next is this list, with exactly one message per id.
\<close>

theorem saveMessages_first_position_latest_content:
  "map msg_id (messages (saveMessages (new_Chat tab) ms)) = firstIntroduced (map msg_id ms) \<and>
   (\<forall>i \<in> msg_id ` set ms.
      List.find (\<lambda>x. msg_id x = i) (messages (saveMessages (new_Chat tab) ms)) =
        List.find (\<lambda>x. msg_id x = i) (rev ms) \<and>
      length (filter (\<lambda>x. msg_id x = i) (messages (saveMessages (new_Chat tab) ms))) = 1) \<and>
   last (effects (onConnect (saveMessages (new_Chat tab) ms) c)) =
     Send c (All (messages (saveMessages (new_Chat tab) ms)))"
proof -
  let ?s = "saveMessages (new_Chat tab) ms"
  have ids: "map msg_id (messages ?s) = firstIntroduced (map msg_id ms)"
    by (rule ids_saveMessages)
  have dist: "distinct (map msg_id (messages ?s))"
    by (simp only: ids distinct_firstIntroduced)
  have "set (map msg_id (messages ?s)) = set (map msg_id ms)"
    by (simp only: ids set_firstIntroduced)
  then have mem: "msg_id ` set (messages ?s) = msg_id ` set ms"
    by simp
  have one: "length (filter (\<lambda>x. msg_id x = i) (messages ?s)) = 1"
    if "i \<in> msg_id ` set ms" for i
    using count_one_distinct [OF dist] that mem by blast
  show ?thesis
    using ids one by (simp add: find_saveMessages last_effects_onConnect)
qed

theorem saveMessages_first_position_latest_content_witness:
  "''a'' \<in> msg_id ` set [hi, hi_there] \<and>
   map msg_id (messages (saveMessages (new_Chat DAList.empty) [hi, hi_there])) = [''a''] \<and>
   List.find (\<lambda>x. msg_id x = ''a'')
     (messages (saveMessages (new_Chat DAList.empty) [hi, hi_there])) = Some hi_there \<and>
   msg_content hi_there = ''hi there'' \<and>
   length (filter (\<lambda>x. msg_id x = ''a'')
     (messages (saveMessages (new_Chat DAList.empty) [hi, hi_there]))) = 1"
proof -
  have a: "''a'' \<in> msg_id ` set [hi, hi_there]"
    by (simp add: hi_def)
  have r: "List.find (\<lambda>x. msg_id x = ''a'') (rev [hi, hi_there]) = Some hi_there"
    by (simp add: hi_def hi_there_def)
  have f: "firstIntroduced (map msg_id [hi, hi_there]) = [''a'']"
    by (simp add: firstIntroduced_def hi_def hi_there_def)
  have c: "msg_content hi_there = ''hi there''"
    by (simp add: hi_there_def)
  note T = saveMessages_first_position_latest_content [of DAList.empty "[hi, hi_there]" "''c1''"]
  from T have A: "map msg_id (messages (saveMessages (new_Chat DAList.empty) [hi, hi_there])) =
      firstIntroduced (map msg_id [hi, hi_there])"
    by (rule conjunct1)
  from T have "\<forall>i \<in> msg_id ` set [hi, hi_there].
      List.find (\<lambda>x. msg_id x = i) (messages (saveMessages (new_Chat DAList.empty) [hi, hi_there])) =
        List.find (\<lambda>x. msg_id x = i) (rev [hi, hi_there]) \<and>
      length (filter (\<lambda>x. msg_id x = i)
        (messages (saveMessages (new_Chat DAList.empty) [hi, hi_there]))) = 1"
    by (rule conjunct1 [OF conjunct2])
  from bspec [OF this a]
  have B: "List.find (\<lambda>x. msg_id x = ''a'')
        (messages (saveMessages (new_Chat DAList.empty) [hi, hi_there])) =
        List.find (\<lambda>x. msg_id x = ''a'') (rev [hi, hi_there])"
    and C: "length (filter (\<lambda>x. msg_id x = ''a'')
        (messages (saveMessages (new_Chat DAList.empty) [hi, hi_there]))) = 1"
    by simp_all
  show ?thesis
    using a c C by (simp only: A B r f simp_thms)
qed

section \<open>Uniqueness of ids\<close>

lemma ids_onStart: "map msg_id (messages (onStart s)) = map fst (DAList.impl_of (storage s))"
  by (simp add: onStart_def sql_select_all_def row_to_message_def comp_def)

lemma distinct_saveMessage:
  "distinct (map msg_id (messages s)) \<Longrightarrow> distinct (map msg_id (messages (saveMessage s m)))"
  by (simp add: ids_saveMessage)

text \<open>
  Claim C10. The ids of the in-memory list are pairwise distinct: the list of a fresh
  object is empty, every \<^verbatim>\<open>saveMessage\<close> call keeps the ids distinct, and the list
  that \<^verbatim>\<open>onStart\<close> loads has the ids of the rows, which the primary key keeps distinct.
\<close>

theorem message_ids_distinct:
  "distinct (map msg_id (messages (new_Chat tab))) \<and>
   (distinct (map msg_id (messages s)) \<longrightarrow>
      distinct (map msg_id (messages (saveMessage s m)))) \<and>
   distinct (map msg_id (messages (onStart s)))"
proof (intro conjI impI)
  show "distinct (map msg_id (messages (new_Chat tab)))"
    by (simp add: new_Chat_def)
next
  assume "distinct (map msg_id (messages s))"
  then show "distinct (map msg_id (messages (saveMessage s m)))"
    by (rule distinct_saveMessage)
next
  have "distinct (map fst (DAList.impl_of (storage s)))"
    by (rule DAList.impl_of_distinct)
  then show "distinct (map msg_id (messages (onStart s)))"
    by (simp only: ids_onStart)
qed

theorem message_ids_distinct_witness:
  "distinct (map msg_id (messages (saveMessage (new_Chat DAList.empty) hi))) \<and>
   distinct (map msg_id (messages (saveMessage (saveMessage (new_Chat DAList.empty) hi) hi_there))) \<and>
   length (messages (saveMessage (saveMessage (new_Chat DAList.empty) hi) hi_there)) = 1"
proof -
  have n: "distinct (map msg_id (messages (new_Chat DAList.empty)))"
    by (simp add: new_Chat_def)
  have 1: "distinct (map msg_id (messages (saveMessage (new_Chat DAList.empty) hi)))"
    using message_ids_distinct [of DAList.empty "new_Chat DAList.empty" hi] n by simp
  have 2: "distinct (map msg_id
      (messages (saveMessage (saveMessage (new_Chat DAList.empty) hi) hi_there)))"
    using message_ids_distinct [of DAList.empty "saveMessage (new_Chat DAList.empty) hi" hi_there] 1
    by simp
  have 3: "length (messages (saveMessage (saveMessage (new_Chat DAList.empty) hi) hi_there)) = 1"
    by (simp add: messages_saveMessage new_Chat_def hi_def hi_there_def)
  from 1 2 3 show ?thesis by simp
qed

section \<open>What a conflicting append persists\<close>

lemma find_loaded:
  "List.find (\<lambda>x. msg_id x = i) (map row_to_message xs) =
     map_option (\<lambda>r. row_to_message (i, r)) (map_of xs i)"
  by (induction xs) (auto simp: row_to_message_def)

lemma find_onStart:
  "List.find (\<lambda>x. msg_id x = i) (messages (onStart s)) =
     map_option (\<lambda>r. row_to_message (i, r)) (DAList.lookup (storage s) i)"
  by (simp add: onStart_def sql_select_all_def find_loaded DAList.lookup.rep_eq)

lemma storage_saveMessage_existing:
  "DAList.lookup (storage s) (msg_id m) = Some old \<Longrightarrow>
   DAList.lookup (storage (saveMessage s m)) (msg_id m) =
     Some (old\<lparr>row_content := msg_content m, row_timestamp := or_null (msg_timestamp m),
               row_svgs := msg_svgs m\<rparr>)"
  by (simp add: saveMessage_def Let_def sql_upsert_def)

lemma storage_after_hi:
  "DAList.lookup (storage (saveMessage (new_Chat DAList.empty) hi)) ''a'' = Some hi_row"
  by (simp add: saveMessage_def new_Chat_def hi_def hi_row_def sql_upsert_def
      or_null_def Let_def)

lemma messages_after_hi: "messages (saveMessage (new_Chat DAList.empty) hi) = [hi]"
  by (simp add: messages_saveMessage new_Chat_def)

text \<open>
  Claim C9 says that after an append with an existing id but a different author the list
  and the loaded state disagree on the author and on the role of the message. Carol
  appends under the id of Alice's message, both as \<^verbatim>\<open>user\<close>: the authors differ, the list
  holds Carol's message and the loaded state Alice's name, and the role is \<^verbatim>\<open>user\<close> in
  both views.
\<close>

theorem saveMessage_conflict_same_role_counterexample:
  "DAList.lookup (storage (saveMessage (new_Chat DAList.empty) hi)) (msg_id hi_carol) = Some hi_row \<and>
   msg_id hi_carol \<in> msg_id ` set (messages (saveMessage (new_Chat DAList.empty) hi)) \<and>
   msg_user hi_carol \<noteq> row_user hi_row \<and>
   messages (saveMessage (saveMessage (new_Chat DAList.empty) hi) hi_carol) = [hi_carol] \<and>
   map_option msg_user
     (List.find (\<lambda>x. msg_id x = msg_id hi_carol)
        (messages (saveMessage (saveMessage (new_Chat DAList.empty) hi) hi_carol))) = Some ''Carol'' \<and>
   map_option msg_user
     (List.find (\<lambda>x. msg_id x = msg_id hi_carol)
        (messages (onStart (saveMessage (saveMessage (new_Chat DAList.empty) hi) hi_carol)))) =
     Some ''Alice'' \<and>
   map_option msg_role
     (List.find (\<lambda>x. msg_id x = msg_id hi_carol)
        (messages (saveMessage (saveMessage (new_Chat DAList.empty) hi) hi_carol))) = Some user \<and>
   map_option msg_role
     (List.find (\<lambda>x. msg_id x = msg_id hi_carol)
        (messages (onStart (saveMessage (saveMessage (new_Chat DAList.empty) hi) hi_carol)))) =
     Some user"
proof -
  let ?s = "saveMessage (new_Chat DAList.empty) hi"
  have i: "msg_id hi_carol = ''a''" "msg_id hi = ''a''"
    by (simp_all add: hi_carol_def hi_def)
  have 1: "DAList.lookup (storage ?s) (msg_id hi_carol) = Some hi_row"
    by (simp only: i storage_after_hi)
  have 2: "msg_id hi_carol \<in> msg_id ` set (messages ?s)"
    by (simp only: messages_after_hi) (simp add: i)
  have 3: "msg_user hi_carol \<noteq> row_user hi_row"
    by (simp add: hi_carol_def hi_row_def)
  have "messages (saveMessage ?s hi_carol) =
      map (\<lambda>x. if msg_id x = msg_id hi_carol then hi_carol else x) (messages ?s)"
    using 2 by (simp only: messages_saveMessage [of ?s hi_carol] if_True)
  then have 4: "messages (saveMessage ?s hi_carol) = [hi_carol]"
    by (simp only: messages_after_hi) (simp add: i)
  have 5: "List.find (\<lambda>x. msg_id x = msg_id hi_carol) (messages (saveMessage ?s hi_carol)) =
      Some hi_carol"
    by (simp add: 4)
  have 6: "List.find (\<lambda>x. msg_id x = msg_id hi_carol)
        (messages (onStart (saveMessage ?s hi_carol))) =
      Some (row_to_message (msg_id hi_carol,
        hi_row\<lparr>row_content := msg_content hi_carol,
               row_timestamp := or_null (msg_timestamp hi_carol),
               row_svgs := msg_svgs hi_carol\<rparr>))"
    by (simp only: find_onStart storage_saveMessage_existing [OF 1]) simp
  have 7: "map_option msg_user
      (List.find (\<lambda>x. msg_id x = msg_id hi_carol) (messages (saveMessage ?s hi_carol))) =
      Some ''Carol''"
    by (simp only: 5) (simp add: hi_carol_def)
  have 8: "map_option msg_user
      (List.find (\<lambda>x. msg_id x = msg_id hi_carol)
        (messages (onStart (saveMessage ?s hi_carol)))) = Some ''Alice''"
    by (simp only: 6) (simp add: row_to_message_def hi_row_def)
  have 9: "map_option msg_role
      (List.find (\<lambda>x. msg_id x = msg_id hi_carol) (messages (saveMessage ?s hi_carol))) =
      Some user"
    by (simp only: 5) (simp add: hi_carol_def)
  have 10: "map_option msg_role
      (List.find (\<lambda>x. msg_id x = msg_id hi_carol)
        (messages (onStart (saveMessage ?s hi_carol)))) = Some user"
    by (simp only: 6) (simp add: row_to_message_def hi_row_def)
  from 1 2 3 4 7 8 9 10 show ?thesis
    by (intro conjI) assumption+
qed

text \<open>
  Claim C9, amended. When \<^verbatim>\<open>saveMessage\<close> receives an id that the list and the table
  already hold, the row keeps its \<^verbatim>\<open>user\<close> and \<^verbatim>\<open>role\<close> and takes the new \<^verbatim>\<open>content\<close>,
  \<^verbatim>\<open>timestamp\<close> and \<^verbatim>\<open>svgs\<close>, while the list takes the whole new message in the
  place of the old one. The entry of that id in the list has the new author and the new
  role, and the entry that a following \<^verbatim>\<open>onStart\<close> loads has the persisted author and the
  persisted role. The two views therefore disagree on the author exactly when the new
  author differs from the persisted one, and on the role exactly when the new role
  differs from the persisted one; with a different author they disagree on the
  (author, role) of that message.
\<close>

theorem saveMessage_conflict_keeps_user_role:
  assumes "DAList.lookup (storage s) (msg_id m) = Some old"
    and "msg_id m \<in> msg_id ` set (messages s)"
  shows "DAList.lookup (storage (saveMessage s m)) (msg_id m) =
           Some (old\<lparr>row_content := msg_content m,
                     row_timestamp := or_null (msg_timestamp m), row_svgs := msg_svgs m\<rparr>) \<and>
         messages (saveMessage s m) =
           map (\<lambda>x. if msg_id x = msg_id m then m else x) (messages s) \<and>
         List.find (\<lambda>x. msg_id x = msg_id m) (messages (saveMessage s m)) = Some m \<and>
         List.find (\<lambda>x. msg_id x = msg_id m) (messages (onStart (saveMessage s m))) =
           Some \<lparr>msg_id = msg_id m, msg_content = msg_content m, msg_user = row_user old,
                 msg_role = row_role old, msg_timestamp = or_null (msg_timestamp m),
                 msg_svgs = msg_svgs m\<rparr> \<and>
         (msg_user m \<noteq> row_user old \<longrightarrow>
           map_option (\<lambda>x. (msg_user x, msg_role x))
             (List.find (\<lambda>x. msg_id x = msg_id m) (messages (saveMessage s m))) \<noteq>
           map_option (\<lambda>x. (msg_user x, msg_role x))
             (List.find (\<lambda>x. msg_id x = msg_id m) (messages (onStart (saveMessage s m))))) \<and>
         map_option msg_user
           (List.find (\<lambda>x. msg_id x = msg_id m) (messages (saveMessage s m))) =
           Some (msg_user m) \<and>
         map_option msg_user
           (List.find (\<lambda>x. msg_id x = msg_id m) (messages (onStart (saveMessage s m)))) =
           Some (row_user old) \<and>
         map_option msg_role
           (List.find (\<lambda>x. msg_id x = msg_id m) (messages (saveMessage s m))) =
           Some (msg_role m) \<and>
         map_option msg_role
           (List.find (\<lambda>x. msg_id x = msg_id m) (messages (onStart (saveMessage s m)))) =
           Some (row_role old) \<and>
         ((map_option msg_user
             (List.find (\<lambda>x. msg_id x = msg_id m) (messages (saveMessage s m))) \<noteq>
           map_option msg_user
             (List.find (\<lambda>x. msg_id x = msg_id m) (messages (onStart (saveMessage s m))))) =
          (msg_user m \<noteq> row_user old)) \<and>
         ((map_option msg_role
             (List.find (\<lambda>x. msg_id x = msg_id m) (messages (saveMessage s m))) \<noteq>
           map_option msg_role
             (List.find (\<lambda>x. msg_id x = msg_id m) (messages (onStart (saveMessage s m))))) =
          (msg_role m \<noteq> row_role old))"
proof -
  have 1: "DAList.lookup (storage (saveMessage s m)) (msg_id m) =
           Some (old\<lparr>row_content := msg_content m,
                     row_timestamp := or_null (msg_timestamp m), row_svgs := msg_svgs m\<rparr>)"
    using assms(1) by (rule storage_saveMessage_existing)
  have 2: "List.find (\<lambda>x. msg_id x = msg_id m) (messages (saveMessage s m)) = Some m"
    by (simp add: find_saveMessage)
  have 3: "List.find (\<lambda>x. msg_id x = msg_id m) (messages (onStart (saveMessage s m))) =
           Some \<lparr>msg_id = msg_id m, msg_content = msg_content m, msg_user = row_user old,
                 msg_role = row_role old, msg_timestamp = or_null (msg_timestamp m),
                 msg_svgs = msg_svgs m\<rparr>"
    by (simp add: find_onStart 1 row_to_message_def)
  have 4: "messages (saveMessage s m) =
           map (\<lambda>x. if msg_id x = msg_id m then m else x) (messages s)"
    using assms(2) by (simp add: messages_saveMessage)
  show ?thesis
    by (simp add: 1 2 3 4 [symmetric])
qed

theorem saveMessage_conflict_keeps_user_role_witness:
  "DAList.lookup (storage (saveMessage (new_Chat DAList.empty) hi)) (msg_id hi_bob) = Some hi_row \<and>
   msg_id hi_bob \<in> msg_id ` set (messages (saveMessage (new_Chat DAList.empty) hi)) \<and>
   msg_user hi_bob \<noteq> row_user hi_row \<and>
   messages (saveMessage (saveMessage (new_Chat DAList.empty) hi) hi_bob) = [hi_bob] \<and>
   List.find (\<lambda>x. msg_id x = ''a'')
     (messages (onStart (saveMessage (saveMessage (new_Chat DAList.empty) hi) hi_bob))) =
     Some (hi_bob\<lparr>msg_user := ''Alice'', msg_role := user\<rparr>) \<and>
   map_option msg_user
     (List.find (\<lambda>x. msg_id x = ''a'')
        (messages (saveMessage (saveMessage (new_Chat DAList.empty) hi) hi_bob))) \<noteq>
   map_option msg_user
     (List.find (\<lambda>x. msg_id x = ''a'')
        (messages (onStart (saveMessage (saveMessage (new_Chat DAList.empty) hi) hi_bob)))) \<and>
   map_option msg_role
     (List.find (\<lambda>x. msg_id x = ''a'')
        (messages (saveMessage (saveMessage (new_Chat DAList.empty) hi) hi_bob))) \<noteq>
   map_option msg_role
     (List.find (\<lambda>x. msg_id x = ''a'')
        (messages (onStart (saveMessage (saveMessage (new_Chat DAList.empty) hi) hi_bob))))"
proof -
  let ?s = "saveMessage (new_Chat DAList.empty) hi"
  have i: "msg_id hi_bob = ''a''" "msg_id hi = ''a''"
    by (simp_all add: hi_bob_def hi_def)
  have l: "DAList.lookup (storage ?s) (msg_id hi_bob) = Some hi_row"
    by (simp only: i storage_after_hi)
  have m: "msg_id hi_bob \<in> msg_id ` set (messages ?s)"
    by (simp only: messages_after_hi) (simp add: hi_def hi_bob_def)
  have u: "msg_user hi_bob \<noteq> row_user hi_row"
    by (simp add: hi_bob_def hi_row_def)
  have ro: "msg_role hi_bob \<noteq> row_role hi_row"
    by (simp add: hi_bob_def hi_row_def)
  have r: "\<lparr>msg_id = ''a'', msg_content = msg_content hi_bob, msg_user = row_user hi_row,
            msg_role = row_role hi_row, msg_timestamp = or_null (msg_timestamp hi_bob),
            msg_svgs = msg_svgs hi_bob\<rparr> = hi_bob\<lparr>msg_user := ''Alice'', msg_role := user\<rparr>"
    by (simp add: hi_bob_def hi_row_def or_null_def)
  note T = saveMessage_conflict_keeps_user_role [OF l m]
  from T have "messages (saveMessage ?s hi_bob) =
      map (\<lambda>x. if msg_id x = msg_id hi_bob then hi_bob else x) (messages ?s)"
    by blast
  then have a: "messages (saveMessage ?s hi_bob) = [hi_bob]"
    by (simp add: messages_after_hi i)
  from T have "List.find (\<lambda>x. msg_id x = msg_id hi_bob)
      (messages (onStart (saveMessage ?s hi_bob))) =
      Some \<lparr>msg_id = msg_id hi_bob, msg_content = msg_content hi_bob, msg_user = row_user hi_row,
            msg_role = row_role hi_row, msg_timestamp = or_null (msg_timestamp hi_bob),
            msg_svgs = msg_svgs hi_bob\<rparr>"
    by blast
  then have b: "List.find (\<lambda>x. msg_id x = ''a'') (messages (onStart (saveMessage ?s hi_bob))) =
      Some (hi_bob\<lparr>msg_user := ''Alice'', msg_role := user\<rparr>)"
    by (simp only: i r)
  from T have "(map_option msg_user
        (List.find (\<lambda>x. msg_id x = msg_id hi_bob) (messages (saveMessage ?s hi_bob))) \<noteq>
      map_option msg_user
        (List.find (\<lambda>x. msg_id x = msg_id hi_bob) (messages (onStart (saveMessage ?s hi_bob))))) =
      (msg_user hi_bob \<noteq> row_user hi_row)"
    by blast
  with u have c: "map_option msg_user
        (List.find (\<lambda>x. msg_id x = ''a'') (messages (saveMessage ?s hi_bob))) \<noteq>
      map_option msg_user
        (List.find (\<lambda>x. msg_id x = ''a'') (messages (onStart (saveMessage ?s hi_bob))))"
    by (simp only: i) simp
  from T have "(map_option msg_role
        (List.find (\<lambda>x. msg_id x = msg_id hi_bob) (messages (saveMessage ?s hi_bob))) \<noteq>
      map_option msg_role
        (List.find (\<lambda>x. msg_id x = msg_id hi_bob) (messages (onStart (saveMessage ?s hi_bob))))) =
      (msg_role hi_bob \<noteq> row_role hi_row)"
    by blast
  with ro have d: "map_option msg_role
        (List.find (\<lambda>x. msg_id x = ''a'') (messages (saveMessage ?s hi_bob))) \<noteq>
      map_option msg_role
        (List.find (\<lambda>x. msg_id x = ''a'') (messages (onStart (saveMessage ?s hi_bob))))"
    by (simp only: i) simp
  from l m u a b c d show ?thesis
    by (intro conjI) assumption+
qed

section \<open>Broadcast and append\<close>

lemma effects_saveMessage: "effects (saveMessage s m) = effects s @ [SqlUpsert m]"
  by (simp add: saveMessage_def Let_def)

lemma effects_broadcast: "effects (broadcast s frame) = effects s @ [Broadcast frame]"
  by (simp add: broadcast_def)

text \<open>
  Claim C2, as stated, asks for the append to come before the broadcast. On a fresh
  room that receives the frame of \<^verbatim>\<open>add\<close> for the message \<open>hi\<close>, the handler
  broadcasts first and executes the upsert second, and the list is still empty in the
  state in which the frame goes out.
\<close>

theorem onMessage_broadcast_first_counterexample:
  "effects (snd (onMessage (\<lambda>frame. Some (JMessage (Add hi))) (new_Chat DAList.empty) ''{add a}'')) =
     [Broadcast ''{add a}'', SqlUpsert hi] \<and>
   effects (snd (onMessage (\<lambda>frame. Some (JMessage (Add hi))) (new_Chat DAList.empty) ''{add a}'')) \<noteq>
     [SqlUpsert hi, Broadcast ''{add a}''] \<and>
   effects (broadcast (new_Chat DAList.empty) ''{add a}'') = [Broadcast ''{add a}''] \<and>
   messages (broadcast (new_Chat DAList.empty) ''{add a}'') = []"
  by (simp add: onMessage_def effects_saveMessage effects_broadcast Let_def)
    (simp add: new_Chat_def broadcast_def)

text \<open>
  Claim C2, amended. For a frame that parses to \<^verbatim>\<open>add\<close> or \<^verbatim>\<open>update\<close>, the handler
  broadcasts the raw frame and then appends the message, in one call: the call adds
  the broadcast and then the upsert to what the server has done, the list is
  untouched when the frame goes out, and the state it returns is the one
  \<^verbatim>\<open>saveMessage\<close> leaves.
\<close>

theorem onMessage_broadcast_then_append:
  assumes "parse frame = Some (JMessage (Add m)) \<or> parse frame = Some (JMessage (Update m))"
  shows "onMessage parse s frame = (None, saveMessage (broadcast s frame) m) \<and>
         effects (snd (onMessage parse s frame)) =
           effects s @ [Broadcast frame, SqlUpsert m] \<and>
         messages (broadcast s frame) = messages s"
  using assms
  by (auto simp: onMessage_def Let_def effects_saveMessage effects_broadcast)
    (simp_all add: broadcast_def)

theorem onMessage_broadcast_then_append_witness:
  "((\<lambda>frame. Some (JMessage (Update hi_there))) ''{update a}'' = Some (JMessage (Add hi_there)) \<or>
    (\<lambda>frame. Some (JMessage (Update hi_there))) ''{update a}'' = Some (JMessage (Update hi_there))) \<and>
   effects (snd (onMessage (\<lambda>frame. Some (JMessage (Update hi_there)))
      (saveMessage (new_Chat DAList.empty) hi) ''{update a}'')) =
     [SqlUpsert hi, Broadcast ''{update a}'', SqlUpsert hi_there]"
proof -
  have p: "(\<lambda>frame. Some (JMessage (Update hi_there))) ''{update a}'' = Some (JMessage (Add hi_there)) \<or>
           (\<lambda>frame. Some (JMessage (Update hi_there))) ''{update a}'' = Some (JMessage (Update hi_there))"
    by simp
  have e: "effects (saveMessage (new_Chat DAList.empty) hi) = [SqlUpsert hi]"
    by (simp add: effects_saveMessage new_Chat_def)
  from onMessage_broadcast_then_append
    [where parse = "\<lambda>frame. Some (JMessage (Update hi_there))" and frame = "''{update a}''"
       and m = hi_there and s = "saveMessage (new_Chat DAList.empty) hi", OF p]
  have "effects (snd (onMessage (\<lambda>frame. Some (JMessage (Update hi_there)))
      (saveMessage (new_Chat DAList.empty) hi) ''{update a}'')) =
     effects (saveMessage (new_Chat DAList.empty) hi) @
       [Broadcast ''{update a}'', SqlUpsert hi_there]"
    by blast
  then show ?thesis
    unfolding e by simp
qed

section \<open>The client reconciler\<close>

lemma message_entry_id: "message_entry m = m"
  by (simp add: message_entry_def)

lemma findIndex_None: "(findIndex P xs = None) = (\<forall>x\<in>set xs. \<not> P x)"
  by (induction xs) auto

lemma findIndex_Some:
  "findIndex P xs = Some k \<Longrightarrow> k < length xs \<and> P (xs ! k) \<and> (\<forall>j<k. \<not> P (xs ! j))"
proof (induction xs arbitrary: k)
  case Nil
  then show ?case by simp
next
  case (Cons a xs)
  show ?case
  proof (cases "P a")
    case True
    with Cons.prems show ?thesis by simp
  next
    case False
    with Cons.prems obtain k' where k': "findIndex P xs = Some k'" "k = Suc k'"
      by auto
    from Cons.IH [OF k'(1)] False k'(2) show ?thesis
      by (auto simp: nth_Cons split: nat.splits)
  qed
qed

lemma findIndex_snoc_fresh:
  "\<forall>x\<in>set xs. \<not> P x \<Longrightarrow> P y \<Longrightarrow> findIndex P (xs @ [y]) = Some (length xs)"
  by (induction xs) auto

text \<open>
  When the handler has been created by a render that saw the current list, \<^verbatim>\<open>add\<close> for
  an id that the list holds replaces the first entry with that id where it stands, and
  a submit of a new id followed by its echo leaves exactly one entry for the id.
\<close>

lemma App_onMessage_add_in_place:
  "(msg_id m \<in> msg_id ` set ms \<longrightarrow>
      (\<exists>k<length ms. findIndex (\<lambda>x. msg_id x = msg_id m) ms = Some k \<and>
         msg_id (ms ! k) = msg_id m \<and> (\<forall>j<k. msg_id (ms ! j) \<noteq> msg_id m) \<and>
         App_onMessage ms (Add m) ms = ms[k := m])) \<and>
   (msg_id m \<notin> msg_id ` set ms \<and>
    App_onSubmit ms content name pending ref nanoid now = (ms', Some (Add cm)) \<and>
    msg_id cm = msg_id m \<longrightarrow>
      ms' = ms @ [cm] \<and> App_onMessage ms' (Add m) ms' = ms @ [m] \<and>
      length (filter (\<lambda>x. msg_id x = msg_id m) (App_onMessage ms' (Add m) ms')) = 1)"
proof (intro conjI impI)
  assume "msg_id m \<in> msg_id ` set ms"
  then have "findIndex (\<lambda>x. msg_id x = msg_id m) ms \<noteq> None"
    by (auto simp: findIndex_None)
  then obtain k where k: "findIndex (\<lambda>x. msg_id x = msg_id m) ms = Some k"
    by auto
  from findIndex_Some [OF k]
  have p: "k < length ms" "msg_id (ms ! k) = msg_id m" "\<forall>j<k. msg_id (ms ! j) \<noteq> msg_id m"
    by auto
  have "App_onMessage ms (Add m) ms = ms[k := m]"
    using p(1) by (simp add: App_onMessage_def k message_entry_id upd_conv_take_nth_drop)
  with k p show "\<exists>k<length ms. findIndex (\<lambda>x. msg_id x = msg_id m) ms = Some k \<and>
         msg_id (ms ! k) = msg_id m \<and> (\<forall>j<k. msg_id (ms ! j) \<noteq> msg_id m) \<and>
         App_onMessage ms (Add m) ms = ms[k := m]"
    by blast
next
  assume a: "msg_id m \<notin> msg_id ` set ms \<and>
    App_onSubmit ms content name pending ref nanoid now = (ms', Some (Add cm)) \<and>
    msg_id cm = msg_id m"
  then show 1: "ms' = ms @ [cm]"
    by (auto simp: App_onSubmit_def Let_def split: if_splits)
  from a have fresh: "\<forall>x\<in>set ms. msg_id x \<noteq> msg_id m"
    by (metis image_eqI)
  from a have "msg_id cm = msg_id m"
    by simp
  with fresh have f: "findIndex (\<lambda>x. msg_id x = msg_id m) (ms @ [cm]) = Some (length ms)"
    by (intro findIndex_snoc_fresh)
  show 2: "App_onMessage ms' (Add m) ms' = ms @ [m]"
    by (simp add: 1 App_onMessage_def f message_entry_id)
  from fresh have "filter (\<lambda>x. msg_id x = msg_id m) ms = []"
    by (simp add: filter_empty_conv)
  then show "length (filter (\<lambda>x. msg_id x = msg_id m) (App_onMessage ms' (Add m) ms')) = 1"
    by (simp add: 2)
qed



section \<open>Rounding\<close>

lemma round_even_of_int: "round_even (of_int k) = k"
  by (simp add: round_even_def)

text \<open>
  A number with at most 53 binary places and an exponent in range is a double, and
  rounding leaves it as it is.
\<close>

lemma double_representable:
  assumes r: "r = of_int n * 2 powr of_int q"
    and n0: "n \<noteq> 0" and n: "\<bar>n\<bar> < 2 ^ 53" and q1: "- 1074 \<le> q" and q2: "q \<le> 971"
  shows "double r = Num r"
proof -
  define a where "a = \<bar>r\<bar>"
  have a: "a = of_int \<bar>n\<bar> * 2 powr of_int q"
    by (simp add: a_def r abs_mult)
  have apos: "0 < a"
    using n0 by (simp add: a)
  have npos: "0 < (of_int \<bar>n\<bar> :: real)"
    using n0 by simp
  have "(of_int \<bar>n\<bar> :: real) < 2 ^ 53"
    using n by (metis of_int_less_numeral_power_cancel_iff)
  then have "(of_int \<bar>n\<bar> :: real) < 2 powr 53"
    by simp
  then have ln: "log 2 (of_int \<bar>n\<bar>) < 53"
    using npos by (simp only: log_less_iff [of 2, simplified])
  have "log 2 a = log 2 (of_int \<bar>n\<bar>) + of_int q"
    using npos by (simp add: a log_mult)
  with ln have "log 2 a < of_int (53 + q)"
    by simp
  then have fl: "\<lfloor>log 2 a\<rfloor> \<le> 52 + q"
    by (simp add: floor_less_iff [symmetric] del: of_int_add)
  define e where "e = max \<lfloor>log 2 a\<rfloor> (- 1022)"
  have eq: "e - 52 \<le> q"
    using fl q1 by (simp add: e_def)
  define d where "d = nat (q - (e - 52))"
  have dq: "of_int q = of_int (e - 52) + (of_nat d :: real)"
    using eq by (simp add: d_def)
  define u where "u = 2 powr (of_int (e - 52) :: real)"
  have upos: "0 < u" by (simp add: u_def)
  have "2 powr (of_int q :: real) = u * 2 ^ d"
    unfolding dq u_def by (simp add: powr_add powr_realpow)
  then have au: "a = of_int (\<bar>n\<bar> * 2 ^ d) * u"
    by (simp add: a)
  then have "a / u = of_int (\<bar>n\<bar> * 2 ^ d)"
    using upos by simp
  then have rn: "round_even (a / u) = \<bar>n\<bar> * 2 ^ d"
    by (simp only: round_even_of_int)
  have k0: "\<bar>n\<bar> * 2 ^ d \<noteq> 0"
    using n0 by simp
  have v: "of_int (round_even (a / u)) * u = a"
    by (simp only: rn au [symmetric])
  have "2 powr (of_int q :: real) \<le> 2 powr of_int 971"
    by (rule powr_mono) (use q2 in simp_all)
  moreover have "(of_int \<bar>n\<bar> :: real) < 2 powr of_int 53"
    using \<open>(of_int \<bar>n\<bar> :: real) < 2 powr 53\<close> by simp
  ultimately have "a < 2 powr of_int 53 * 2 powr of_int 971"
    unfolding a using npos by (intro mult_less_le_imp_less) simp_all
  also have "\<dots> = 2 powr of_int (53 + 971)"
    by (simp only: powr_add [symmetric] of_int_add)
  also have "\<dots> = 2 powr real (1024::nat)"
    by simp
  also have "\<dots> = (2::real) ^ 1024"
    by (rule powr_realpow) simp
  finally have small: "\<not> 2 ^ 1024 \<le> a"
    by (simp only: not_le)
  have r0: "r \<noteq> 0" using apos by (auto simp: a_def)
  have "double r = Num (if 0 < r then a else - a)"
    unfolding double_def Let_def a_def [symmetric] e_def [symmetric] u_def [symmetric] rn
      au [symmetric]
    using r0 small k0 by (simp only: if_False if_True)
  then show ?thesis
    by (simp add: a_def)
qed

lemma double_of_int: "k \<noteq> 0 \<Longrightarrow> \<bar>k\<bar> < 2 ^ 53 \<Longrightarrow> double (of_int k) = Num (of_int k)"
  using double_representable [of "of_int k" k 0] by simp

lemma double_numeral [simp]:
  "(numeral k :: int) < 2 ^ 53 \<Longrightarrow> double (numeral k) = Num (numeral k)"
  using double_of_int [of "numeral k"] by simp

lemma double_neg_numeral [simp]:
  "(numeral k :: int) < 2 ^ 53 \<Longrightarrow> double (- numeral k) = Num (- numeral k)"
  using double_of_int [of "- numeral k"] by simp

lemma double_one [simp]: "double 1 = Num 1"
  using double_of_int [of 1] by simp

lemma double_half [simp]:
  "(numeral k :: int) < 2 ^ 53 \<Longrightarrow> double (numeral k / 2) = Num (numeral k / 2)"
  using double_representable [of "numeral k / 2" "numeral k" "- 1"]
  by (simp add: powr_minus field_simps)


lemma double_zero [simp]: "double 0 = Num 0"
  by (simp add: double_def)

lemma representable_simps [simp]:
  "representable 0"
  "representable 1"
  "(numeral k :: int) < 2 ^ 53 \<Longrightarrow> representable (numeral k)"
  "(numeral k :: int) < 2 ^ 53 \<Longrightarrow> representable (- numeral k)"
  "(numeral k :: int) < 2 ^ 53 \<Longrightarrow> representable (numeral k / 2)"
  by (simp_all add: representable_def)




section \<open>Arithmetic on finite Numbers\<close>

lemma jmax_Num [simp]: "jmax (Num a) (Num b) = Num (max a b)"
  by (simp add: jmax_def max_def)

lemma jmin_Num [simp]: "jmin (Num a) (Num b) = Num (min a b)"
  by (simp add: jmin_def min_def)







section \<open>Normalization and ink\<close>

lemma resolve_bounds_viewBox4:
  "viewBoxMatch src = Some [a, b, c, d] \<Longrightarrow> resolve_bounds src = (a, b, c, d)"
  by (simp add: resolve_bounds_def element_def)

lemma resolve_bounds_document: "resolve_bounds (document [a, b, c, d]) = (a, b, c, d)"
  by (simp add: resolve_bounds_viewBox4 document_def)

lemma normalizeSvg_bounds:
  assumes "resolve_bounds src = (x, y, w, h)"
  shows "normalizeSvg rnd src =
     Inr \<lparr>n_viewBox = (if svgTag src then Some [Num 0, Num 0, Num 300, Num 300] else None),
          n_group =
            (if \<not> has_g src then (if svgTag src then Some Synthesized else None)
             else (if gTag src then Some Injected else None)),
          n_closing = (\<not> has_g src \<and> closingTag src),
          n_offsetX =
            jsub rnd
              (jdiv rnd (jsub rnd (Num 300) (jmul rnd w (jdiv rnd (Num 300) (jmax w h)))) (Num 2))
              (jmul rnd x (jdiv rnd (Num 300) (jmax w h))),
          n_offsetY =
            jsub rnd
              (jdiv rnd (jsub rnd (Num 300) (jmul rnd h (jdiv rnd (Num 300) (jmax w h)))) (Num 2))
              (jmul rnd y (jdiv rnd (Num 300) (jmax w h))),
          n_scale = jdiv rnd (Num 300) (jmax w h)\<rparr>"
  using assms by (simp add: normalizeSvg_def Let_def)

lemma normalizeSvg_returns: "\<exists>out. normalizeSvg rnd src = Inr out"
  by (simp add: normalizeSvg_def Let_def split: prod.splits)






text \<open>
  Claim C4, as stated, asks \<^verbatim>\<open>normalizeSvg\<close> to fail when \<open>max(width, height) = 0\<close>.
  For \<^verbatim>\<open>viewBox="0 0 0 0"\<close> it returns a document, with scale \<open>Infinity\<close> and
  offsets \<open>NaN\<close>, and no error.
\<close>

theorem normalizeSvg_degenerate_counterexample:
  "resolve_bounds empty_box = (Num 0, Num 0, Num 0, Num 0) \<and> max (0::real) 0 = 0 \<and>
   normalizeSvg double empty_box =
     Inr \<lparr>n_viewBox = Some [Num 0, Num 0, Num 300, Num 300], n_group = Some Synthesized,
          n_closing = True, n_offsetX = NaN, n_offsetY = NaN, n_scale = PInf\<rparr> \<and>
   \<not> (\<exists>e. normalizeSvg double empty_box = Inl e)"
  by (simp add: normalizeSvg_bounds [OF resolve_bounds_document] empty_box_def
      resolve_bounds_document)
    (simp add: document_def jdiv_def jmul_def jsub_def jadd_def signed_inf_def)

text \<open>
  Claim C4, amended. For a source whose box has \<open>max(width, height) = 0\<close>,
  \<^verbatim>\<open>normalizeSvg\<close> raises nothing and returns a document. The scale of the transform it
  builds is \<open>300 / 0 = Infinity\<close>, or \<open>-Infinity\<close> when the maximum is \<open>-0\<close>; when
  width and height are both zero, both offsets are \<open>NaN\<close>. The root tag is rewritten
  when the text has one; the transform is written on a group wrapped behind the root
  tag when the text has a root tag and no \<^verbatim>\<open><g\<close>, on the first group tag when the
  text contains \<^verbatim>\<open><g\<close> and has a group tag, and nowhere otherwise.
\<close>

theorem normalizeSvg_degenerate_returns:
  assumes "resolve_bounds src = (x, y, w, h)" and "is_zero (jmax w h)"
  shows "\<exists>out. normalizeSvg rnd src = Inr out \<and>
           n_scale out = (if jmax w h = NegZero then NInf else PInf) \<and>
           (is_zero w \<and> is_zero h \<longrightarrow> n_offsetX out = NaN \<and> n_offsetY out = NaN) \<and>
           n_viewBox out =
             (if svgTag src then Some [Num 0, Num 0, Num 300, Num 300] else None) \<and>
           n_group out =
             (if \<not> has_g src then (if svgTag src then Some Synthesized else None)
              else (if gTag src then Some Injected else None)) \<and>
           n_closing out = (\<not> has_g src \<and> closingTag src)"
proof -
  let ?s = "jdiv rnd (Num 300) (jmax w h)"
  have s: "?s = (if jmax w h = NegZero then NInf else PInf)"
    using assms(2) by (cases "jmax w h") (simp_all add: jdiv_def signed_inf_def)
  have i: "is_infinite ?s" "?s \<noteq> NaN"
    unfolding s by simp_all
  have z: "jmul rnd v ?s = NaN" if "is_zero v" for v
    using that i by (simp add: jmul_def)
  have n: "jsub rnd (jdiv rnd (jsub rnd (Num 300) NaN) (Num 2)) v = NaN" for v
    by (simp add: jsub_def jadd_def jdiv_def)
  show ?thesis
    unfolding normalizeSvg_bounds [OF assms(1)]
    by (simp add: s [symmetric] z n)
qed

theorem normalizeSvg_degenerate_returns_witness:
  "resolve_bounds negative_empty_box = (Num 0, Num 0, NegZero, NegZero) \<and>
   is_zero (jmax NegZero NegZero) \<and>
   (\<exists>out. normalizeSvg double negative_empty_box = Inr out \<and> n_scale out = NInf \<and>
      n_offsetX out = NaN \<and> n_offsetY out = NaN \<and> n_group out = Some Synthesized) \<and>
   resolve_bounds untagged = (Num 0, Num 0, Num 0, Num 0) \<and>
   is_zero (jmax (Num 0) (Num 0)) \<and>
   (\<exists>out. normalizeSvg double untagged = Inr out \<and> n_scale out = PInf \<and>
      n_viewBox out = None \<and> n_group out = None \<and> \<not> n_closing out)"
proof -
  have b: "resolve_bounds negative_empty_box = (Num 0, Num 0, NegZero, NegZero)"
    by (simp add: negative_empty_box_def resolve_bounds_document)
  have z: "is_zero (jmax NegZero NegZero)"
    by (simp add: jmax_def)
  have t: "svgTag negative_empty_box" "\<not> has_g negative_empty_box"
    by (simp_all add: negative_empty_box_def document_def)
  from normalizeSvg_degenerate_returns [OF b z, of double] t
  have 1: "\<exists>out. normalizeSvg double negative_empty_box = Inr out \<and> n_scale out = NInf \<and>
      n_offsetX out = NaN \<and> n_offsetY out = NaN \<and> n_group out = Some Synthesized"
    by (auto simp: jmax_def)
  have b': "resolve_bounds untagged = (Num 0, Num 0, Num 0, Num 0)"
    by (simp add: untagged_def resolve_bounds_viewBox4)
  have z': "is_zero (jmax (Num 0) (Num 0))"
    by simp
  have t': "\<not> svgTag untagged" "\<not> has_g untagged" "\<not> closingTag untagged"
    by (simp_all add: untagged_def)
  from normalizeSvg_degenerate_returns [OF b' z', of double] t'
  have 2: "\<exists>out. normalizeSvg double untagged = Inr out \<and> n_scale out = PInf \<and>
      n_viewBox out = None \<and> n_group out = None \<and> \<not> n_closing out"
    by auto
  from b z 1 b' z' 2 show ?thesis
    by (intro conjI) assumption+
qed




lemma exact_Num [simp]: "exact r = Num r"
  by (simp add: exact_def)








section \<open>Uploads\<close>

lemma upload_files_ok:
  "\<forall>key. \<not> put_fails env key \<Longrightarrow>
   \<exists>env' ds. upload_files r u m files env acc = (env', Inr (acc @ ds)) \<and>
     map att_filename ds = map file_name (filter is_svg files) \<and>
     (\<forall>d\<in>set ds. att_url d = ''/api/svg/'' @ storage_key r u m (att_filename d))"
proof (induction files arbitrary: env acc)
  case Nil
  then show ?case by simp
next
  case (Cons a files)
  show ?case
  proof (cases "is_svg a")
    case False
    with Cons.IH [OF Cons.prems, of acc] show ?thesis
      by (auto simp: is_svg_def)
  next
    case True
    obtain out where out: "normalizeSvg double (file_text a) = Inr out"
      using normalizeSvg_returns by blast
    let ?env1 = "snd (randomUUID env)"
    let ?key = "storage_key r u m (file_name a)"
    let ?env2 = "?env1\<lparr>SVG_BUCKET := (SVG_BUCKET ?env1)(?key \<mapsto> out)\<rparr>"
    let ?d = "\<lparr>att_id = fst (randomUUID env), att_url = ''/api/svg/'' @ ?key,
               att_filename = file_name a\<rparr>"
    have nf: "\<forall>key. \<not> put_fails ?env2 key"
      using Cons.prems by (simp add: randomUUID_def)
    have step: "upload_files r u m (a # files) env acc =
        upload_files r u m files ?env2 (acc @ [?d])"
      using True Cons.prems by (auto simp: is_svg_def out R2_put_def randomUUID_def Let_def)
    from Cons.IH [OF nf, of "acc @ [?d]"]
    obtain env' ds where ih: "upload_files r u m files ?env2 (acc @ [?d]) = (env', Inr ((acc @ [?d]) @ ds))"
      "map att_filename ds = map file_name (filter is_svg files)"
      "\<forall>d\<in>set ds. att_url d = ''/api/svg/'' @ storage_key r u m (att_filename d)"
      by blast
    have "upload_files r u m (a # files) env acc = (env', Inr (acc @ (?d # ds)))"
      unfolding step ih(1) by simp
    moreover have "map att_filename (?d # ds) = map file_name (filter is_svg (a # files))"
      using True by (simp add: ih(2))
    moreover have "\<forall>d\<in>set (?d # ds). att_url d = ''/api/svg/'' @ storage_key r u m (att_filename d)"
      using ih(3) by simp
    ultimately show ?thesis by blast
  qed
qed


lemma upload_files_Cons:
  "upload_files r u m (a # files) env acc = upload_files r u m files env acc \<or>
   upload_files r u m (a # files) env acc =
     (env\<lparr>uuid_count := Suc (uuid_count env)\<rparr>, Inl StorageError) \<or>
   (is_svg a \<and>
    (\<exists>out. normalizeSvg double (file_text a) = Inr out \<and>
      upload_files r u m (a # files) env acc =
        upload_files r u m files
          (env\<lparr>uuid_count := Suc (uuid_count env),
               SVG_BUCKET := (SVG_BUCKET env)(storage_key r u m (file_name a) \<mapsto> out)\<rparr>)
          (acc @ [\<lparr>att_id = uuid_supply env (uuid_count env),
                    att_url = ''/api/svg/'' @ storage_key r u m (file_name a),
                    att_filename = file_name a\<rparr>])))"
  using normalizeSvg_returns [of double "file_text a"]
  by (auto simp: R2_put_def randomUUID_def Let_def is_svg_def)

lemma upload_files_bucket:
  "SVG_BUCKET (fst (upload_files r u m files env acc)) key \<noteq> SVG_BUCKET env key \<Longrightarrow>
   \<exists>f\<in>set files. is_svg f \<and> key = storage_key r u m (file_name f)"
proof (induction files arbitrary: env acc)
  case Nil
  then show ?case by simp
next
  case (Cons a files)
  obtain out where out: "normalizeSvg double (file_text a) = Inr out"
    using normalizeSvg_returns by blast
  let ?env1 = "env\<lparr>uuid_count := Suc (uuid_count env)\<rparr>"
  let ?k = "storage_key r u m (file_name a)"
  let ?env2 = "?env1\<lparr>SVG_BUCKET := (SVG_BUCKET ?env1)(?k \<mapsto> out)\<rparr>"
  let ?acc = "acc @ [\<lparr>att_id = uuid_supply env (uuid_count env), att_url = ''/api/svg/'' @ ?k,
                      att_filename = file_name a\<rparr>]"
  from upload_files_Cons [of r u m a files env acc] out
  consider (skip) "upload_files r u m (a # files) env acc = upload_files r u m files env acc"
    | (fail) "upload_files r u m (a # files) env acc = (?env1, Inl StorageError)"
    | (put) "is_svg a"
        "upload_files r u m (a # files) env acc = upload_files r u m files ?env2 ?acc"
    by auto
  then show ?case
  proof cases
    case skip
    with Cons.prems have "SVG_BUCKET (fst (upload_files r u m files env acc)) key \<noteq> SVG_BUCKET env key"
      by simp
    from Cons.IH [OF this] show ?thesis by auto
  next
    case fail
    with Cons.prems show ?thesis by simp
  next
    case put
    show ?thesis
    proof (cases "key = ?k")
      case True
      with put(1) show ?thesis by auto
    next
      case False
      with Cons.prems put(2)
      have "SVG_BUCKET (fst (upload_files r u m files ?env2 ?acc)) key \<noteq> SVG_BUCKET ?env2 key"
        by simp
      from Cons.IH [OF this] show ?thesis by auto
    qed
  qed
qed

lemma upload_files_urls:
  "upload_files r u m files env acc = (env', Inr ds) \<Longrightarrow>
   \<forall>d\<in>set acc. att_url d = ''/api/svg/'' @ storage_key r u m (att_filename d) \<Longrightarrow>
   \<forall>d\<in>set ds. att_url d = ''/api/svg/'' @ storage_key r u m (att_filename d)"
proof (induction files arbitrary: env acc)
  case Nil
  then show ?case by simp
next
  case (Cons a files)
  obtain out where out: "normalizeSvg double (file_text a) = Inr out"
    using normalizeSvg_returns by blast
  let ?env1 = "env\<lparr>uuid_count := Suc (uuid_count env)\<rparr>"
  let ?k = "storage_key r u m (file_name a)"
  let ?env2 = "?env1\<lparr>SVG_BUCKET := (SVG_BUCKET ?env1)(?k \<mapsto> out)\<rparr>"
  let ?acc = "acc @ [\<lparr>att_id = uuid_supply env (uuid_count env), att_url = ''/api/svg/'' @ ?k,
                      att_filename = file_name a\<rparr>]"
  from upload_files_Cons [of r u m a files env acc] out
  consider (skip) "upload_files r u m (a # files) env acc = upload_files r u m files env acc"
    | (fail) "upload_files r u m (a # files) env acc = (?env1, Inl StorageError)"
    | (put) "upload_files r u m (a # files) env acc = upload_files r u m files ?env2 ?acc"
    by auto
  then show ?case
  proof cases
    case skip
    with Cons.prems(1) have "upload_files r u m files env acc = (env', Inr ds)" by simp
    from Cons.IH [OF this Cons.prems(2)] show ?thesis .
  next
    case fail
    with Cons.prems(1) show ?thesis by simp
  next
    case put
    with Cons.prems(1) have e: "upload_files r u m files ?env2 ?acc = (env', Inr ds)" by simp
    have "\<forall>d\<in>set ?acc. att_url d = ''/api/svg/'' @ storage_key r u m (att_filename d)"
      using Cons.prems(2) by simp
    from Cons.IH [OF e this] show ?thesis .
  qed
qed

lemma restricted_underscore: "restricted CHR ''_''"
  by (simp add: restricted_def)

lemma restricted_sanitize: "\<forall>c\<in>set (sanitize s). restricted c"
  by (auto simp: sanitize_def restricted_underscore)

lemma restricted_not_slash: "restricted c \<Longrightarrow> c \<noteq> CHR ''/''"
  by (auto simp: restricted_def)

lemma segments_nonempty: "segments s \<noteq> []"
  by (induction s) (auto split: list.splits)

lemma segments_prefix:
  "CHR ''/'' \<notin> set a \<Longrightarrow> segments (a @ CHR ''/'' # rest) = a # segments rest"
  by (induction a) (auto split: list.splits simp: segments_nonempty)

lemma segments_storage_key:
  assumes "\<forall>c\<in>set r. restricted c" "\<forall>c\<in>set u. restricted c" "\<forall>c\<in>set m. restricted c"
  shows "segments (storage_key r u m name) = [''svgs'', r, u, m] @ segments name"
proof -
  have s: "CHR ''/'' \<notin> set r" "CHR ''/'' \<notin> set u" "CHR ''/'' \<notin> set m"
    using assms restricted_not_slash by blast+
  have 0: "CHR ''/'' \<notin> set ''svgs''" by simp
  have k: "storage_key r u m name =
      ''svgs'' @ CHR ''/'' # (r @ CHR ''/'' # (u @ CHR ''/'' # (m @ CHR ''/'' # name)))"
    by (simp add: storage_key_def)
  show ?thesis
    unfolding k segments_prefix [OF 0] segments_prefix [OF s(1)] segments_prefix [OF s(2)]
      segments_prefix [OF s(3)]
    by simp
qed


lemma handleSvgUpload_POST:
  assumes "req_method request = ''POST''" and "req_formData request = Some formData"
  shows "\<exists>messageId env1.
     messageId =
       (case form_messageId formData of
          None \<Rightarrow> uuid_supply env (uuid_count env)
        | Some m \<Rightarrow> if m = [] then uuid_supply env (uuid_count env) else m) \<and>
     put_fails env1 = put_fails env \<and> SVG_BUCKET env1 = SVG_BUCKET env \<and>
     handleSvgUpload request env =
       (if length (form_svgs formData) = 0
        then (\<lparr>status = 400, body = ErrorBody ''No files uploaded''\<rparr>, env1)
        else
          (case upload_files (sanitize (or_default (form_room formData) ''default''))
                  (sanitize (or_default (form_user formData) ''anonymous''))
                  (sanitize messageId) (form_svgs formData) env1 [] of
             (env2, Inl e) \<Rightarrow> (\<lparr>status = 500, body = ErrorBody ''Upload failed''\<rparr>, env2)
           | (env2, Inr uploadedSvgs) \<Rightarrow>
               (\<lparr>status = 200, body = SvgsBody uploadedSvgs\<rparr>, env2)))"
proof -
  define me where "me = (case form_messageId formData of
        None \<Rightarrow> randomUUID env
      | Some m \<Rightarrow> if m = [] then randomUUID env else (m, env))"
  have e: "fst me =
       (case form_messageId formData of
          None \<Rightarrow> uuid_supply env (uuid_count env)
        | Some m \<Rightarrow> if m = [] then uuid_supply env (uuid_count env) else m) \<and>
      put_fails (snd me) = put_fails env \<and> SVG_BUCKET (snd me) = SVG_BUCKET env"
    by (auto simp: me_def randomUUID_def split: option.splits)
  have "handleSvgUpload request env =
       (if length (form_svgs formData) = 0
        then (\<lparr>status = 400, body = ErrorBody ''No files uploaded''\<rparr>, snd me)
        else
          (case upload_files (sanitize (or_default (form_room formData) ''default''))
                  (sanitize (or_default (form_user formData) ''anonymous''))
                  (sanitize (fst me)) (form_svgs formData) (snd me) [] of
             (env2, Inl e) \<Rightarrow> (\<lparr>status = 500, body = ErrorBody ''Upload failed''\<rparr>, env2)
           | (env2, Inr uploadedSvgs) \<Rightarrow>
               (\<lparr>status = 200, body = SvgsBody uploadedSvgs\<rparr>, env2)))"
    by (simp add: handleSvgUpload_def assms Let_def case_prod_beta me_def)
  with e show ?thesis by blast
qed

text \<open>
  Claim C7, as stated, asks for the status 400 whenever no valid SVG file is
  submitted. A POST that carries one PNG file and nothing else is answered with the
  status 200 and an empty list of attachments.
\<close>

theorem handleSvgUpload_all_non_svg_counterexample:
  "form_svgs (the (req_formData (post [png]))) = [png] \<and> \<not> is_svg png \<and>
   fst (handleSvgUpload (post [png]) env0) = \<lparr>status = 200, body = SvgsBody []\<rparr> \<and>
   status (fst (handleSvgUpload (post [png]) env0)) \<noteq> 400"
  by (simp add: handleSvgUpload_def post_def png_def env0_def or_default_def endsWith_def
      is_svg_def Let_def)

text \<open>
  Claim C7, amended. A POST whose form carries no file at all is answered with the
  status 400. A POST whose form carries files, on a bucket that accepts the writes, is
  answered with the status 200 and one attachment descriptor for each file that has
  the SVG media type or a name ending in \<^verbatim>\<open>.svg\<close>, in the order of submission; the other
  files are skipped, so the list is empty when all of them are.
\<close>

theorem handleSvgUpload_responses:
  assumes "req_method request = ''POST''" and "req_formData request = Some formData"
  shows "(form_svgs formData = [] \<longrightarrow> status (fst (handleSvgUpload request env)) = 400) \<and>
         (form_svgs formData \<noteq> [] \<and> (\<forall>key. \<not> put_fails env key) \<longrightarrow>
            (\<exists>ds. fst (handleSvgUpload request env) = \<lparr>status = 200, body = SvgsBody ds\<rparr> \<and>
               map att_filename ds = map file_name (filter is_svg (form_svgs formData)) \<and>
               length ds = length (filter is_svg (form_svgs formData))))"
proof -
  from handleSvgUpload_POST [OF assms, of env]
  obtain messageId env1 where pf: "put_fails env1 = put_fails env"
    and h: "handleSvgUpload request env =
       (if length (form_svgs formData) = 0
        then (\<lparr>status = 400, body = ErrorBody ''No files uploaded''\<rparr>, env1)
        else
          (case upload_files (sanitize (or_default (form_room formData) ''default''))
                  (sanitize (or_default (form_user formData) ''anonymous''))
                  (sanitize messageId) (form_svgs formData) env1 [] of
             (env2, Inl e) \<Rightarrow> (\<lparr>status = 500, body = ErrorBody ''Upload failed''\<rparr>, env2)
           | (env2, Inr uploadedSvgs) \<Rightarrow>
               (\<lparr>status = 200, body = SvgsBody uploadedSvgs\<rparr>, env2)))"
    by blast
  have a: "status (fst (handleSvgUpload request env)) = 400" if "form_svgs formData = []"
    using that by (simp add: h)
  have b: "\<exists>ds. fst (handleSvgUpload request env) = \<lparr>status = 200, body = SvgsBody ds\<rparr> \<and>
               map att_filename ds = map file_name (filter is_svg (form_svgs formData)) \<and>
               length ds = length (filter is_svg (form_svgs formData))"
    if ne: "form_svgs formData \<noteq> []" and ok: "\<forall>key. \<not> put_fails env key"
  proof -
    from ok pf have "\<forall>key. \<not> put_fails env1 key" by simp
    from upload_files_ok [OF this, of _ _ _ "form_svgs formData" "[]"]
    obtain env' ds where u: "upload_files (sanitize (or_default (form_room formData) ''default''))
                  (sanitize (or_default (form_user formData) ''anonymous''))
                  (sanitize messageId) (form_svgs formData) env1 [] = (env', Inr ([] @ ds))"
      and f: "map att_filename ds = map file_name (filter is_svg (form_svgs formData))"
      by blast
    from f have "length (map att_filename ds) = length (map file_name (filter is_svg (form_svgs formData)))"
      by simp
    then have l: "length ds = length (filter is_svg (form_svgs formData))"
      by simp
    from ne have "fst (handleSvgUpload request env) = \<lparr>status = 200, body = SvgsBody ds\<rparr>"
      unfolding h u by simp
    with f l show ?thesis by blast
  qed
  from a b show ?thesis by blast
qed

theorem handleSvgUpload_responses_witness:
  "req_method (post [svg1, png, svg2]) = ''POST'' \<and>
   (\<forall>key. \<not> put_fails env0 key) \<and>
   filter is_svg [svg1, png, svg2] = [svg1, svg2] \<and>
   status (fst (handleSvgUpload (post []) env0)) = 400 \<and>
   (\<exists>ds. fst (handleSvgUpload (post [svg1, png, svg2]) env0) =
            \<lparr>status = 200, body = SvgsBody ds\<rparr> \<and>
          map att_filename ds = [''one.svg'', ''two.svg''] \<and> length ds = 2)"
proof -
  have p: "req_method (post fs) = ''POST''" for fs
    by (simp add: post_def)
  have f: "req_formData (post fs) =
      Some \<lparr>form_svgs = fs, form_room = Some ''lobby'', form_user = Some ''Al ice'',
            form_messageId = Some ''m1''\<rparr>" for fs
    by (simp add: post_def)
  have ok: "\<forall>key. \<not> put_fails env0 key"
    by (simp add: env0_def)
  have v: "filter is_svg [svg1, png, svg2] = [svg1, svg2]"
    by (simp add: is_svg_def svg1_def svg2_def png_def endsWith_def)
  have n: "map file_name [svg1, svg2] = [''one.svg'', ''two.svg'']"
    by (simp add: svg1_def svg2_def)
  from handleSvgUpload_responses [OF p f, of "[]" env0]
  have a: "status (fst (handleSvgUpload (post []) env0)) = 400"
    by simp
  from handleSvgUpload_responses [OF p f, of "[svg1, png, svg2]" env0] ok
  obtain ds where "fst (handleSvgUpload (post [svg1, png, svg2]) env0) =
            \<lparr>status = 200, body = SvgsBody ds\<rparr>"
    "map att_filename ds = map file_name (filter is_svg [svg1, png, svg2])"
    "length ds = length (filter is_svg [svg1, png, svg2])"
    by auto
  then have "fst (handleSvgUpload (post [svg1, png, svg2]) env0) =
            \<lparr>status = 200, body = SvgsBody ds\<rparr> \<and>
          map att_filename ds = [''one.svg'', ''two.svg''] \<and> length ds = 2"
    unfolding v n by simp
  then have e: "\<exists>ds. fst (handleSvgUpload (post [svg1, png, svg2]) env0) =
            \<lparr>status = 200, body = SvgsBody ds\<rparr> \<and>
          map att_filename ds = [''one.svg'', ''two.svg''] \<and> length ds = 2"
    by (rule exI)
  from p [of "[svg1, png, svg2]"] ok v a e show ?thesis
    by (intro conjI) assumption+
qed

text \<open>
  Claim C8, as stated, asks every segment of a key to consist of letters, digits,
  underscore and hyphen. The file named \<^verbatim>\<open>../../x.svg\<close> is stored under a key with the
  segments \<^verbatim>\<open>..\<close> and \<^verbatim>\<open>x.svg\<close>.
\<close>

theorem storage_key_filename_counterexample:
  "SVG_BUCKET (snd (handleSvgUpload (post [evil]) env0)) ''svgs/lobby/Al_ice/m1/../../x.svg'' \<noteq> None \<and>
   segments ''svgs/lobby/Al_ice/m1/../../x.svg'' =
     [''svgs'', ''lobby'', ''Al_ice'', ''m1'', ''..'', ''..'', ''x.svg''] \<and>
   \<not> (\<forall>seg\<in>set (segments ''svgs/lobby/Al_ice/m1/../../x.svg''). \<forall>c\<in>set seg. restricted c)"
proof -
  have n: "\<exists>out. normalizeSvg double tall = Inr out"
    by (rule normalizeSvg_returns)
  then obtain out where out: "normalizeSvg double tall = Inr out" by blast
  have "SVG_BUCKET (snd (handleSvgUpload (post [evil]) env0)) ''svgs/lobby/Al_ice/m1/../../x.svg'' \<noteq> None"
    by (simp add: handleSvgUpload_def post_def evil_def env0_def or_default_def endsWith_def
      sanitize_def restricted_def storage_key_def randomUUID_def R2_put_def out Let_def)
  moreover have s: "segments ''svgs/lobby/Al_ice/m1/../../x.svg'' =
     [''svgs'', ''lobby'', ''Al_ice'', ''m1'', ''..'', ''..'', ''x.svg'']"
    by simp
  moreover have "\<not> (\<forall>seg\<in>set (segments ''svgs/lobby/Al_ice/m1/../../x.svg''). \<forall>c\<in>set seg. restricted c)"
    unfolding s by (simp add: restricted_def)
  ultimately show ?thesis by blast
qed

lemma sanitize_nth:
  "length (sanitize s) = length s \<and>
   (\<forall>i<length s. sanitize s ! i = (if restricted (s ! i) then s ! i else CHR ''_''))"
  by (simp add: sanitize_def)

text \<open>
  Claim C8, amended. Every key that an upload writes is
  \<^verbatim>\<open>svgs/room/user/messageId/\<close> followed by the name of a submitted SVG file. Its room
  segment is the sanitized room field (\<^verbatim>\<open>default\<close> when missing or empty), its user
  segment the sanitized user field (\<^verbatim>\<open>anonymous\<close> when missing or empty) and its message
  id segment the sanitized message id field, or the sanitized UUID drawn when that field
  is missing or empty; sanitizing keeps the letters, digits, underscores and hyphens of
  a field and puts an underscore for every other character, so these three segments
  consist of letters, digits, underscore and hyphen only. The URL of every descriptor
  returned is \<^verbatim>\<open>/api/svg/\<close> followed by such a key.
\<close>

theorem storage_key_folders_sanitized:
  assumes "req_method request = ''POST''" and "req_formData request = Some formData"
  shows "\<exists>safeRoom safeUser safeMessageId.
           safeRoom = sanitize (or_default (form_room formData) ''default'') \<and>
           safeUser = sanitize (or_default (form_user formData) ''anonymous'') \<and>
           safeMessageId =
             sanitize
               (case form_messageId formData of
                  None \<Rightarrow> uuid_supply env (uuid_count env)
                | Some m \<Rightarrow> if m = [] then uuid_supply env (uuid_count env) else m) \<and>
           (\<forall>s. length (sanitize s) = length s \<and>
              (\<forall>i<length s. sanitize s ! i = (if restricted (s ! i) then s ! i else CHR ''_''))) \<and>
           (\<forall>c\<in>set safeRoom. restricted c) \<and> (\<forall>c\<in>set safeUser. restricted c) \<and>
           (\<forall>c\<in>set safeMessageId. restricted c) \<and>
           (\<forall>key. SVG_BUCKET (snd (handleSvgUpload request env)) key \<noteq> SVG_BUCKET env key \<longrightarrow>
              (\<exists>f\<in>set (filter is_svg (form_svgs formData)).
                 key = storage_key safeRoom safeUser safeMessageId (file_name f) \<and>
                 segments key =
                   [''svgs'', safeRoom, safeUser, safeMessageId] @ segments (file_name f))) \<and>
           (\<forall>ds. body (fst (handleSvgUpload request env)) = SvgsBody ds \<longrightarrow>
              (\<forall>d\<in>set ds. att_url d =
                 ''/api/svg/'' @ storage_key safeRoom safeUser safeMessageId (att_filename d)))"
proof -
  let ?r = "sanitize (or_default (form_room formData) ''default'')"
  let ?u = "sanitize (or_default (form_user formData) ''anonymous'')"
  let ?id = "case form_messageId formData of
                  None \<Rightarrow> uuid_supply env (uuid_count env)
                | Some m \<Rightarrow> if m = [] then uuid_supply env (uuid_count env) else m"
  let ?m = "sanitize ?id"
  from handleSvgUpload_POST [OF assms, of env]
  obtain env1 where b1: "SVG_BUCKET env1 = SVG_BUCKET env"
    and h: "handleSvgUpload request env =
       (if length (form_svgs formData) = 0
        then (\<lparr>status = 400, body = ErrorBody ''No files uploaded''\<rparr>, env1)
        else
          (case upload_files ?r ?u ?m (form_svgs formData) env1 [] of
             (env2, Inl e) \<Rightarrow> (\<lparr>status = 500, body = ErrorBody ''Upload failed''\<rparr>, env2)
           | (env2, Inr uploadedSvgs) \<Rightarrow>
               (\<lparr>status = 200, body = SvgsBody uploadedSvgs\<rparr>, env2)))"
    by blast
  let ?up = "upload_files ?r ?u ?m (form_svgs formData) env1 []"
  note rs = restricted_sanitize [of "or_default (form_room formData) ''default''"]
    restricted_sanitize [of "or_default (form_user formData) ''anonymous''"]
    restricted_sanitize [of ?id]
  have env': "SVG_BUCKET (snd (handleSvgUpload request env)) =
      (if length (form_svgs formData) = 0 then SVG_BUCKET env1 else SVG_BUCKET (fst ?up))"
    unfolding h by (simp split: prod.splits sum.splits)
  have keys: "\<exists>f\<in>set (filter is_svg (form_svgs formData)).
                 key = storage_key ?r ?u ?m (file_name f) \<and>
                 segments key = [''svgs'', ?r, ?u, ?m] @ segments (file_name f)"
    if k: "SVG_BUCKET (snd (handleSvgUpload request env)) key \<noteq> SVG_BUCKET env key" for key
  proof -
    from k env' b1 have "SVG_BUCKET (fst ?up) key \<noteq> SVG_BUCKET env1 key"
      by (simp split: if_splits)
    from upload_files_bucket [OF this]
    obtain f where f: "f \<in> set (form_svgs formData)" "is_svg f"
      "key = storage_key ?r ?u ?m (file_name f)"
      by blast
    from f(3) segments_storage_key [OF rs, of "file_name f"]
    have "segments key = [''svgs'', ?r, ?u, ?m] @ segments (file_name f)"
      by simp
    with f show ?thesis by auto
  qed
  have urls: "\<forall>d\<in>set ds. att_url d = ''/api/svg/'' @ storage_key ?r ?u ?m (att_filename d)"
    if b: "body (fst (handleSvgUpload request env)) = SvgsBody ds" for ds
  proof -
    from b have "\<exists>env2. ?up = (env2, Inr ds)"
      unfolding h by (auto split: if_splits prod.splits sum.splits)
    then obtain env2 where "?up = (env2, Inr ds)" by blast
    from upload_files_urls [OF this] show ?thesis by simp
  qed
  from rs keys urls sanitize_nth show ?thesis by blast
qed

theorem storage_key_folders_sanitized_witness:
  "req_method post_slash = ''POST'' \<and>
   SVG_BUCKET (snd (handleSvgUpload post_slash env0)) ''svgs/lobby/Al_ice/m_1/one.svg'' \<noteq>
     SVG_BUCKET env0 ''svgs/lobby/Al_ice/m_1/one.svg'' \<and>
   sanitize ''m/1'' = ''m_1'' \<and>
   segments ''svgs/lobby/Al_ice/m_1/one.svg'' =
     [''svgs'', sanitize ''lobby'', sanitize ''Al ice'', sanitize ''m/1'', ''one.svg''] \<and>
   req_method post_anonymous = ''POST'' \<and>
   SVG_BUCKET (snd (handleSvgUpload post_anonymous env0)) ''svgs/default/anonymous/u/one.svg'' \<noteq>
     SVG_BUCKET env0 ''svgs/default/anonymous/u/one.svg'' \<and>
   segments ''svgs/default/anonymous/u/one.svg'' =
     [''svgs'', sanitize ''default'', sanitize ''anonymous'',
      sanitize (uuid_supply env0 (uuid_count env0)), ''one.svg'']"
proof -
  let ?K = "''svgs/lobby/Al_ice/m_1/one.svg''"
  let ?A = "''svgs/default/anonymous/u/one.svg''"
  obtain out where out: "normalizeSvg double tall = Inr out"
    using normalizeSvg_returns by blast
  have s: "sanitize ''m/1'' = ''m_1''"
    by (simp add: sanitize_def restricted_def)
  have v: "filter is_svg [svg1] = [svg1]" "file_name svg1 = ''one.svg''"
    by (simp_all add: is_svg_def svg1_def)
  have n: "segments ''one.svg'' = [''one.svg'']"
    by simp
  have p: "req_method post_slash = ''POST''"
    by (simp add: post_slash_def)
  have f: "req_formData post_slash =
      Some \<lparr>form_svgs = [svg1], form_room = Some ''lobby'', form_user = Some ''Al ice'',
            form_messageId = Some ''m/1''\<rparr>"
    by (simp add: post_slash_def)
  have "SVG_BUCKET (snd (handleSvgUpload post_slash env0)) ?K \<noteq> None"
    by (simp add: handleSvgUpload_def post_slash_def svg1_def env0_def or_default_def
      endsWith_def sanitize_def restricted_def storage_key_def randomUUID_def R2_put_def out
      Let_def)
  moreover have "SVG_BUCKET env0 ?K = None"
    by (simp add: env0_def)
  ultimately have c: "SVG_BUCKET (snd (handleSvgUpload post_slash env0)) ?K \<noteq> SVG_BUCKET env0 ?K"
    by simp
  from storage_key_folders_sanitized [OF p f, of env0]
  have "\<forall>key. SVG_BUCKET (snd (handleSvgUpload post_slash env0)) key \<noteq> SVG_BUCKET env0 key \<longrightarrow>
          (\<exists>f\<in>set (filter is_svg [svg1]).
             segments key =
               [''svgs'', sanitize (or_default (Some ''lobby'') ''default''),
                sanitize (or_default (Some ''Al ice'') ''anonymous''),
                sanitize ''m/1''] @ segments (file_name f))"
    by auto
  with c have "\<exists>f\<in>set (filter is_svg [svg1]).
      segments ?K =
        [''svgs'', sanitize (or_default (Some ''lobby'') ''default''),
         sanitize (or_default (Some ''Al ice'') ''anonymous''),
         sanitize ''m/1''] @ segments (file_name f)"
    by blast
  then have k: "segments ?K =
      [''svgs'', sanitize ''lobby'', sanitize ''Al ice'', sanitize ''m/1'', ''one.svg'']"
    unfolding v n by (simp add: or_default_def)
  have p': "req_method post_anonymous = ''POST''"
    by (simp add: post_anonymous_def)
  have f': "req_formData post_anonymous =
      Some \<lparr>form_svgs = [svg1], form_room = None, form_user = Some [],
            form_messageId = None\<rparr>"
    by (simp add: post_anonymous_def)
  have u: "uuid_supply env0 (uuid_count env0) = ''u''"
    by (simp add: env0_def)
  have "SVG_BUCKET (snd (handleSvgUpload post_anonymous env0)) ?A \<noteq> None"
    by (simp add: handleSvgUpload_def post_anonymous_def svg1_def env0_def or_default_def
      endsWith_def sanitize_def restricted_def storage_key_def randomUUID_def R2_put_def out
      Let_def)
  moreover have "SVG_BUCKET env0 ?A = None"
    by (simp add: env0_def)
  ultimately have c': "SVG_BUCKET (snd (handleSvgUpload post_anonymous env0)) ?A \<noteq>
      SVG_BUCKET env0 ?A"
    by simp
  from storage_key_folders_sanitized [OF p' f', of env0]
  have "\<forall>key. SVG_BUCKET (snd (handleSvgUpload post_anonymous env0)) key \<noteq>
            SVG_BUCKET env0 key \<longrightarrow>
          (\<exists>f\<in>set (filter is_svg [svg1]).
             segments key =
               [''svgs'', sanitize (or_default None ''default''),
                sanitize (or_default (Some []) ''anonymous''),
                sanitize (uuid_supply env0 (uuid_count env0))] @ segments (file_name f))"
    by auto
  with c' have "\<exists>f\<in>set (filter is_svg [svg1]).
      segments ?A =
        [''svgs'', sanitize (or_default None ''default''),
         sanitize (or_default (Some []) ''anonymous''),
         sanitize (uuid_supply env0 (uuid_count env0))] @ segments (file_name f)"
    by blast
  then have k': "segments ?A =
      [''svgs'', sanitize ''default'', sanitize ''anonymous'',
       sanitize (uuid_supply env0 (uuid_count env0)), ''one.svg'']"
    unfolding v n by (simp add: or_default_def)
  from p c s k p' c' k' show ?thesis
    by (intro conjI) assumption+
qed

end
